theory Spec2Isabelle
  imports Complex_Main
begin

section \<open>Errors and the measurement loop\<close>

text \<open>
  The scripts are modelled twice.  In the first model every number is a \<^typ>\<open>real\<close> and
  every operation is exact: this is the arithmetic of the equations in the scripts'
  docstrings.  In the second model, further down, the numbers are Python floats: each
  operation is rounded, overflows to infinity and propagates NaN as Python's does.  Both
  keep what Python raises: a division by zero raises \<^verbatim>\<open>ZeroDivisionError\<close>, and the power
  operator raises \<^verbatim>\<open>OverflowError\<close> when its result is out of range.
\<close>

datatype error = ZeroDivisionError | OverflowError

definition py_div :: "real \<Rightarrow> real \<Rightarrow> error + real" where
  "py_div a b = (if b = 0 then Inl ZeroDivisionError else Inr (a / b))"

text \<open>
  Every script runs \<^verbatim>\<open>for n, z in enumerate(measurements, start=1): ...\<close> over module-level
  variables.  The loop is a recursion over the measurement list that threads the
  variables as a state and stops at the first exception.
\<close>

fun for_enumerate ::
  "(nat \<Rightarrow> 'z \<Rightarrow> 's \<Rightarrow> error + 's) \<Rightarrow> nat \<Rightarrow> 'z list \<Rightarrow> 's \<Rightarrow> error + 's" where
  "for_enumerate body n [] s = Inr s"
| "for_enumerate body n (z # zs) s =
     (case body n z s of
        Inl e \<Rightarrow> Inl e
      | Inr s' \<Rightarrow> for_enumerate body (Suc n) zs s')"

section \<open>The variables of the scripts\<close>

text \<open>
  The scripts share variable names; the records below extend one another so that each
  name is declared once, and they are polymorphic in the type of the numbers so that both
  models use them.  \<open>static_state\<close> holds the variables of Ch-3 Ex-1, \<open>kalman_state\<close>
  those of the Ch-4 and Ch-5 scripts, \<open>ab_state\<close> those of Ch-3 Ex-2 and Ex-3,
  \<open>abg_state\<close> those of Ch-3 Ex-4.  The lists of true values, which only feed the plots,
  are left out.
\<close>

record 'a est_state =
  x_est :: 'a

record 'a static_state = "'a est_state" +
  estimates :: "'a list"
  predictions :: "'a list"

record 'a kalman_state = "'a static_state" +
  p_est :: 'a
  variances :: "'a list"
  kalman_gains :: "'a list"

record 'a ab_state = "'a est_state" +
  vx_est :: 'a
  x_estimates :: "'a list"
  vx_estimates :: "'a list"
  x_predictions :: "'a list"
  vx_predictions :: "'a list"

record 'a abg_state = "'a ab_state" +
  ax_est :: 'a
  ax_estimates :: "'a list"
  ax_predictions :: "'a list"

definition static_init :: "'a \<Rightarrow> 'a static_state" where
  "static_init x0 = \<lparr>x_est = x0, estimates = [], predictions = []\<rparr>"

definition alpha_beta_init :: "'a \<Rightarrow> 'a \<Rightarrow> 'a ab_state" where
  "alpha_beta_init x0 vx0 =
     \<lparr>x_est = x0, vx_est = vx0, x_estimates = [], vx_estimates = [],
      x_predictions = [], vx_predictions = []\<rparr>"

definition alpha_beta_gamma_init :: "'a \<Rightarrow> 'a \<Rightarrow> 'a \<Rightarrow> 'a abg_state" where
  "alpha_beta_gamma_init x0 vx0 ax0 =
     \<lparr>x_est = x0, vx_est = vx0, x_estimates = [], vx_estimates = [],
      x_predictions = [], vx_predictions = [],
      ax_est = ax0, ax_estimates = [], ax_predictions = []\<rparr>"

definition kalman_init :: "'a \<Rightarrow> 'a \<Rightarrow> 'a kalman_state" where
  "kalman_init x0 p0 =
     \<lparr>x_est = x0, estimates = [], predictions = [],
      p_est = p0, variances = [], kalman_gains = []\<rparr>"

section \<open>The scripts in exact arithmetic\<close>

text \<open>
  Ch-3 Ex-1 (the static model with gain 1/n), Ch-3 Ex-2 and Ex-3 (the alpha-beta filter),
  Ch-3 Ex-4 (the alpha-beta-gamma filter), Ch-5 Ex-1 to Ex-3 and Ch-4 Ex-1 (the
  one-dimensional Kalman filter with and without process noise), statement by statement,
  with real numbers.
\<close>

definition static_body :: "nat \<Rightarrow> real \<Rightarrow> real static_state \<Rightarrow> error + real static_state" where
  "static_body n z s =
     (let x_pred = x_est s;
          predictions' = predictions s @ [x_pred]
      in case py_div 1 (real n) of
           Inl e \<Rightarrow> Inl e
         | Inr alpha \<Rightarrow>
             (let x_est' = x_pred + alpha * (z - x_pred)
              in Inr \<lparr>x_est = x_est',
                      estimates = estimates s @ [x_est'],
                      predictions = predictions'\<rparr>))"

definition static_run :: "real \<Rightarrow> real list \<Rightarrow> error + real static_state" where
  "static_run x0 measurements = for_enumerate static_body 1 measurements (static_init x0)"

definition alpha_beta_body ::
  "real \<Rightarrow> real \<Rightarrow> real \<Rightarrow> nat \<Rightarrow> real \<Rightarrow> real ab_state \<Rightarrow> error + real ab_state" where
  "alpha_beta_body alpha beta delta_t n z s =
     (let x_pred = x_est s + delta_t * vx_est s;
          vx_pred = vx_est s;
          x_predictions' = x_predictions s @ [x_pred];
          vx_predictions' = vx_predictions s @ [vx_pred];
          residual = z - x_pred;
          x_est' = x_pred + alpha * residual
      in case py_div (beta * residual) delta_t of
           Inl e \<Rightarrow> Inl e
         | Inr d \<Rightarrow>
             (let vx_est' = vx_pred + d
              in Inr \<lparr>x_est = x_est',
                      vx_est = vx_est',
                      x_estimates = x_estimates s @ [x_est'],
                      vx_estimates = vx_estimates s @ [vx_est'],
                      x_predictions = x_predictions',
                      vx_predictions = vx_predictions'\<rparr>))"

definition alpha_beta_run ::
  "real \<Rightarrow> real \<Rightarrow> real \<Rightarrow> real \<Rightarrow> real \<Rightarrow> real list \<Rightarrow> error + real ab_state" where
  "alpha_beta_run alpha beta delta_t x0 vx0 measurements =
     for_enumerate (alpha_beta_body alpha beta delta_t) 1 measurements (alpha_beta_init x0 vx0)"

definition alpha_beta_gamma_body ::
  "real \<Rightarrow> real \<Rightarrow> real \<Rightarrow> real \<Rightarrow> nat \<Rightarrow> real \<Rightarrow> real abg_state \<Rightarrow> error + real abg_state" where
  "alpha_beta_gamma_body alpha beta gamma delta_t n z s =
     (let x_pred = x_est s + delta_t * vx_est s + 0.5 * ax_est s * delta_t ^ 2;
          vx_pred = vx_est s + ax_est s * delta_t;
          ax_pred = ax_est s;
          x_predictions' = x_predictions s @ [x_pred];
          vx_predictions' = vx_predictions s @ [vx_pred];
          ax_predictions' = ax_predictions s @ [ax_pred];
          residual = z - x_pred;
          x_est' = x_pred + alpha * residual
      in case py_div residual delta_t of
           Inl e \<Rightarrow> Inl e
         | Inr dv \<Rightarrow>
             (let vx_est' = vx_pred + beta * dv
              in case py_div residual (0.5 * delta_t ^ 2) of
                   Inl e \<Rightarrow> Inl e
                 | Inr da \<Rightarrow>
                     (let ax_est' = ax_pred + gamma * da
                      in Inr \<lparr>x_est = x_est',
                              vx_est = vx_est',
                              x_estimates = x_estimates s @ [x_est'],
                              vx_estimates = vx_estimates s @ [vx_est'],
                              x_predictions = x_predictions',
                              vx_predictions = vx_predictions',
                              ax_est = ax_est',
                              ax_estimates = ax_estimates s @ [ax_est'],
                              ax_predictions = ax_predictions'\<rparr>)))"

definition alpha_beta_gamma_run ::
  "real \<Rightarrow> real \<Rightarrow> real \<Rightarrow> real \<Rightarrow> real \<Rightarrow> real \<Rightarrow> real \<Rightarrow> real list \<Rightarrow> error + real abg_state" where
  "alpha_beta_gamma_run alpha beta gamma delta_t x0 vx0 ax0 measurements =
     for_enumerate (alpha_beta_gamma_body alpha beta gamma delta_t) 1 measurements
       (alpha_beta_gamma_init x0 vx0 ax0)"

text \<open>
  Ch-5: \<^verbatim>\<open>p_pred = p_est + process_variance\<close>.  Ex-2 and Ex-3 of Ch-5 do not enumerate
  and append to their lists after the update; the step index is unused and the lists
  come out the same.
\<close>

definition kalman_body ::
  "real \<Rightarrow> real \<Rightarrow> nat \<Rightarrow> real \<Rightarrow> real kalman_state \<Rightarrow> error + real kalman_state" where
  "kalman_body process_variance measurement_variance n z s =
     (let x_pred = x_est s;
          p_pred = p_est s + process_variance;
          predictions' = predictions s @ [x_pred]
      in case py_div p_pred (p_pred + measurement_variance) of
           Inl e \<Rightarrow> Inl e
         | Inr K \<Rightarrow>
             (let x_est' = x_pred + K * (z - x_pred);
                  p_est' = (1 - K) * p_pred
              in Inr \<lparr>x_est = x_est',
                      estimates = estimates s @ [x_est'],
                      predictions = predictions',
                      p_est = p_est',
                      variances = variances s @ [p_est'],
                      kalman_gains = kalman_gains s @ [K]\<rparr>))"

text \<open>Ch-4 Ex-1 has no process noise: \<^verbatim>\<open>p_pred = p_est\<close>.\<close>

definition kalman_static_body ::
  "real \<Rightarrow> nat \<Rightarrow> real \<Rightarrow> real kalman_state \<Rightarrow> error + real kalman_state" where
  "kalman_static_body measurement_variance n z s =
     (let x_pred = x_est s;
          p_pred = p_est s;
          predictions' = predictions s @ [x_pred]
      in case py_div p_pred (p_pred + measurement_variance) of
           Inl e \<Rightarrow> Inl e
         | Inr K \<Rightarrow>
             (let x_est' = x_pred + K * (z - x_pred);
                  p_est' = (1 - K) * p_pred
              in Inr \<lparr>x_est = x_est',
                      estimates = estimates s @ [x_est'],
                      predictions = predictions',
                      p_est = p_est',
                      variances = variances s @ [p_est'],
                      kalman_gains = kalman_gains s @ [K]\<rparr>))"

definition kalman_run :: "real \<Rightarrow> real \<Rightarrow> real \<Rightarrow> real \<Rightarrow> real list \<Rightarrow> error + real kalman_state" where
  "kalman_run process_variance measurement_variance x0 p0 measurements =
     for_enumerate (kalman_body process_variance measurement_variance) 1 measurements
       (kalman_init x0 p0)"

definition kalman_static_run :: "real \<Rightarrow> real \<Rightarrow> real \<Rightarrow> real list \<Rightarrow> error + real kalman_state" where
  "kalman_static_run measurement_variance x0 p0 measurements =
     for_enumerate (kalman_static_body measurement_variance) 1 measurements (kalman_init x0 p0)"

section \<open>Python floats\<close>

text \<open>
  A Python float is an IEEE 754 binary64 number: a finite number with a significand of 53
  bits and a binary exponent from -1022 to 1023 (below \<open>2 ^ -1022\<close> the subnormal numbers,
  multiples of \<open>2 ^ -1074\<close>), plus and minus infinity, or NaN.  The sign of zero is not
  kept: it changes no comparison and, since a division by zero raises, no result of the
  scripts.

  \<open>binade a\<close> is the binary exponent of a positive \<open>a\<close>, and \<open>ulp x\<close> the spacing of
  the floats around \<open>x\<close>.  \<open>round_nearest_even\<close> rounds a real to the nearest multiple
  of that spacing, a tie going to the even multiple; \<open>to_float\<close> is the rounding of an
  exact result as every arithmetic operation performs it, with overflow to infinity when
  the rounded magnitude reaches \<open>2 ^ 1024\<close>.  \<open>is_float x\<close> says that the real \<open>x\<close> is
  the value of a finite float.
\<close>

definition round_half_even :: "real \<Rightarrow> int" where
  "round_half_even y =
     (let f = \<lfloor>y\<rfloor>; d = y - of_int f
      in if d < 1 / 2 then f
         else if 1 / 2 < d then f + 1
         else if even f then f else f + 1)"

definition binade :: "real \<Rightarrow> int" where
  "binade a = max \<lfloor>log 2 a\<rfloor> (- 1022)"

definition ulp :: "real \<Rightarrow> real" where
  "ulp x = 2 powi (binade \<bar>x\<bar> - 52)"

definition round_nearest_even :: "real \<Rightarrow> real" where
  "round_nearest_even x = sgn x * (of_int (round_half_even (\<bar>x\<bar> / ulp x)) * ulp x)"

datatype pyfloat = Finite real | PInf | NInf | NaN

definition to_float :: "real \<Rightarrow> pyfloat" where
  "to_float x =
     (let y = round_nearest_even x
      in if 2 ^ 1024 \<le> y then PInf
         else if y \<le> - (2 ^ 1024) then NInf
         else Finite y)"

definition is_float :: "real \<Rightarrow> bool" where
  "is_float x \<longleftrightarrow> to_float x = Finite x"

text \<open>
  The operations \<^verbatim>\<open>-a\<close>, \<^verbatim>\<open>a + b\<close>, \<^verbatim>\<open>a - b\<close>, \<^verbatim>\<open>a * b\<close> and \<^verbatim>\<open>a / b\<close> on floats.  The
  first four never raise.  A division raises \<^verbatim>\<open>ZeroDivisionError\<close> when the divisor is
  zero, whatever the dividend (also for NaN and the infinities), and otherwise returns
  the IEEE quotient.
\<close>

fun fneg :: "pyfloat \<Rightarrow> pyfloat" where
  "fneg (Finite a) = Finite (- a)"
| "fneg PInf = NInf"
| "fneg NInf = PInf"
| "fneg NaN = NaN"

fun fadd :: "pyfloat \<Rightarrow> pyfloat \<Rightarrow> pyfloat" where
  "fadd (Finite a) (Finite b) = to_float (a + b)"
| "fadd NaN b = NaN"
| "fadd a NaN = NaN"
| "fadd PInf NInf = NaN"
| "fadd NInf PInf = NaN"
| "fadd PInf b = PInf"
| "fadd a PInf = PInf"
| "fadd NInf b = NInf"
| "fadd a NInf = NInf"

definition fsub :: "pyfloat \<Rightarrow> pyfloat \<Rightarrow> pyfloat" where
  "fsub a b = fadd a (fneg b)"

fun fmul :: "pyfloat \<Rightarrow> pyfloat \<Rightarrow> pyfloat" where
  "fmul (Finite a) (Finite b) = to_float (a * b)"
| "fmul NaN b = NaN"
| "fmul a NaN = NaN"
| "fmul (Finite a) PInf = (if a = 0 then NaN else if 0 < a then PInf else NInf)"
| "fmul (Finite a) NInf = (if a = 0 then NaN else if 0 < a then NInf else PInf)"
| "fmul PInf (Finite b) = (if b = 0 then NaN else if 0 < b then PInf else NInf)"
| "fmul NInf (Finite b) = (if b = 0 then NaN else if 0 < b then NInf else PInf)"
| "fmul PInf PInf = PInf"
| "fmul PInf NInf = NInf"
| "fmul NInf PInf = NInf"
| "fmul NInf NInf = PInf"

fun fdiv :: "pyfloat \<Rightarrow> pyfloat \<Rightarrow> error + pyfloat" where
  "fdiv a (Finite b) =
     (if b = 0 then Inl ZeroDivisionError
      else Inr (case a of
                  Finite x \<Rightarrow> to_float (x / b)
                | PInf \<Rightarrow> if 0 < b then PInf else NInf
                | NInf \<Rightarrow> if 0 < b then NInf else PInf
                | NaN \<Rightarrow> NaN))"
| "fdiv NaN b = Inr NaN"
| "fdiv a NaN = Inr NaN"
| "fdiv (Finite x) b = Inr (Finite 0)"
| "fdiv a b = Inr NaN"

text \<open>The comparison \<^verbatim>\<open>a <= b\<close>, false when either side is NaN.\<close>

fun fle :: "pyfloat \<Rightarrow> pyfloat \<Rightarrow> bool" where
  "fle (Finite a) (Finite b) = (a \<le> b)"
| "fle NaN b = False"
| "fle a NaN = False"
| "fle NInf b = True"
| "fle a PInf = True"
| "fle a b = False"

text \<open>
  \<^verbatim>\<open>x ** 2\<close> on a float is computed by the C library's \<^verbatim>\<open>pow\<close>; Python raises
  \<^verbatim>\<open>OverflowError\<close> when \<^verbatim>\<open>pow\<close> reports a result out of range.  The loop of Ch-3 Ex-4
  takes this operation as a parameter.  \<open>float_square\<close> is the correctly rounded square,
  which is what \<^verbatim>\<open>pow\<close> returns at least whenever the square is itself a float.
\<close>

definition float_square :: "pyfloat \<Rightarrow> error + pyfloat" where
  "float_square x =
     (case x of
        Finite a \<Rightarrow> (case to_float (a * a) of
                       Finite y \<Rightarrow> Inr (Finite y)
                     | _ \<Rightarrow> Inl OverflowError)
      | PInf \<Rightarrow> Inr PInf
      | NInf \<Rightarrow> Inr PInf
      | NaN \<Rightarrow> Inr NaN)"

section \<open>The scripts on Python floats\<close>

text \<open>
  The loop bodies again, with every operation a float operation in the order in which
  Python evaluates it.  The parameters, the initial values and the measurements are
  floats; an integer that the scripts write, such as the measurement 996, stands for the
  float of the same value, which is what Python converts it to in an operation with a
  float.  The step index \<open>n\<close> of a list is below \<open>2 ^ 53\<close>, so its conversion in
  \<^verbatim>\<open>1.0 / n\<close> is exact.
\<close>

text \<open>Ch-3 Ex-1.\<close>

definition static_body_float ::
  "nat \<Rightarrow> pyfloat \<Rightarrow> pyfloat static_state \<Rightarrow> error + pyfloat static_state" where
  "static_body_float n z s =
     (let x_pred = x_est s;
          predictions' = predictions s @ [x_pred]
      in case fdiv (Finite 1) (Finite (real n)) of
           Inl e \<Rightarrow> Inl e
         | Inr alpha \<Rightarrow>
             (let x_est' = fadd x_pred (fmul alpha (fsub z x_pred))
              in Inr \<lparr>x_est = x_est',
                      estimates = estimates s @ [x_est'],
                      predictions = predictions'\<rparr>))"

definition static_run_float :: "pyfloat \<Rightarrow> pyfloat list \<Rightarrow> error + pyfloat static_state" where
  "static_run_float x0 measurements =
     for_enumerate static_body_float 1 measurements (static_init x0)"

text \<open>
  Ch-3 Ex-4.  The body first computes the true values for the plots; of these
  statements only \<^verbatim>\<open>t_accel ** 2\<close>, reached when \<^verbatim>\<open>total_time <= 20\<close> is false, can
  raise, and only that is kept.  \<open>pow2\<close> is the operation \<^verbatim>\<open>x ** 2\<close>.
\<close>

definition alpha_beta_gamma_body_float ::
  "(pyfloat \<Rightarrow> error + pyfloat) \<Rightarrow> pyfloat \<Rightarrow> pyfloat \<Rightarrow> pyfloat \<Rightarrow> pyfloat \<Rightarrow>
   nat \<Rightarrow> pyfloat \<Rightarrow> pyfloat abg_state \<Rightarrow> error + pyfloat abg_state" where
  "alpha_beta_gamma_body_float pow2 alpha beta gamma delta_t n z s =
     (let total_time = fmul (Finite (real n)) delta_t
      in case (if fle total_time (Finite 20) then Inr total_time
               else pow2 (fsub total_time (Finite 20))) of
           Inl e \<Rightarrow> Inl e
         | Inr t \<Rightarrow>
     (case pow2 delta_t of
        Inl e \<Rightarrow> Inl e
      | Inr delta_t_2 \<Rightarrow>
          (let x_pred = fadd (fadd (x_est s) (fmul delta_t (vx_est s)))
                          (fmul (fmul (Finite 0.5) (ax_est s)) delta_t_2);
               vx_pred = fadd (vx_est s) (fmul (ax_est s) delta_t);
               ax_pred = ax_est s;
               x_predictions' = x_predictions s @ [x_pred];
               vx_predictions' = vx_predictions s @ [vx_pred];
               ax_predictions' = ax_predictions s @ [ax_pred];
               residual = fsub z x_pred;
               x_est' = fadd x_pred (fmul alpha residual)
           in case fdiv residual delta_t of
                Inl e \<Rightarrow> Inl e
              | Inr dv \<Rightarrow>
                  (let vx_est' = fadd vx_pred (fmul beta dv)
                   in case fdiv residual (fmul (Finite 0.5) delta_t_2) of
                        Inl e \<Rightarrow> Inl e
                      | Inr da \<Rightarrow>
                          (let ax_est' = fadd ax_pred (fmul gamma da)
                           in Inr \<lparr>x_est = x_est',
                                   vx_est = vx_est',
                                   x_estimates = x_estimates s @ [x_est'],
                                   vx_estimates = vx_estimates s @ [vx_est'],
                                   x_predictions = x_predictions',
                                   vx_predictions = vx_predictions',
                                   ax_est = ax_est',
                                   ax_estimates = ax_estimates s @ [ax_est'],
                                   ax_predictions = ax_predictions'\<rparr>)))))"

definition alpha_beta_gamma_run_float ::
  "(pyfloat \<Rightarrow> error + pyfloat) \<Rightarrow> pyfloat \<Rightarrow> pyfloat \<Rightarrow> pyfloat \<Rightarrow> pyfloat \<Rightarrow>
   pyfloat \<Rightarrow> pyfloat \<Rightarrow> pyfloat \<Rightarrow> pyfloat list \<Rightarrow> error + pyfloat abg_state" where
  "alpha_beta_gamma_run_float pow2 alpha beta gamma delta_t x0 vx0 ax0 measurements =
     for_enumerate (alpha_beta_gamma_body_float pow2 alpha beta gamma delta_t) 1 measurements
       (alpha_beta_gamma_init x0 vx0 ax0)"

text \<open>Ch-5 Ex-1 to Ex-3, and Ch-4 Ex-1, where \<^verbatim>\<open>p_pred = p_est\<close>.\<close>

definition kalman_body_float ::
  "pyfloat \<Rightarrow> pyfloat \<Rightarrow> nat \<Rightarrow> pyfloat \<Rightarrow> pyfloat kalman_state \<Rightarrow>
   error + pyfloat kalman_state" where
  "kalman_body_float process_variance measurement_variance n z s =
     (let x_pred = x_est s;
          p_pred = fadd (p_est s) process_variance;
          predictions' = predictions s @ [x_pred]
      in case fdiv p_pred (fadd p_pred measurement_variance) of
           Inl e \<Rightarrow> Inl e
         | Inr K \<Rightarrow>
             (let x_est' = fadd x_pred (fmul K (fsub z x_pred));
                  p_est' = fmul (fsub (Finite 1) K) p_pred
              in Inr \<lparr>x_est = x_est',
                      estimates = estimates s @ [x_est'],
                      predictions = predictions',
                      p_est = p_est',
                      variances = variances s @ [p_est'],
                      kalman_gains = kalman_gains s @ [K]\<rparr>))"

definition kalman_static_body_float ::
  "pyfloat \<Rightarrow> nat \<Rightarrow> pyfloat \<Rightarrow> pyfloat kalman_state \<Rightarrow> error + pyfloat kalman_state" where
  "kalman_static_body_float measurement_variance n z s =
     (let x_pred = x_est s;
          p_pred = p_est s;
          predictions' = predictions s @ [x_pred]
      in case fdiv p_pred (fadd p_pred measurement_variance) of
           Inl e \<Rightarrow> Inl e
         | Inr K \<Rightarrow>
             (let x_est' = fadd x_pred (fmul K (fsub z x_pred));
                  p_est' = fmul (fsub (Finite 1) K) p_pred
              in Inr \<lparr>x_est = x_est',
                      estimates = estimates s @ [x_est'],
                      predictions = predictions',
                      p_est = p_est',
                      variances = variances s @ [p_est'],
                      kalman_gains = kalman_gains s @ [K]\<rparr>))"

definition kalman_run_float ::
  "pyfloat \<Rightarrow> pyfloat \<Rightarrow> pyfloat \<Rightarrow> pyfloat \<Rightarrow> pyfloat list \<Rightarrow>
   error + pyfloat kalman_state" where
  "kalman_run_float process_variance measurement_variance x0 p0 measurements =
     for_enumerate (kalman_body_float process_variance measurement_variance) 1 measurements
       (kalman_init x0 p0)"

definition kalman_static_run_float ::
  "pyfloat \<Rightarrow> pyfloat \<Rightarrow> pyfloat \<Rightarrow> pyfloat list \<Rightarrow> error + pyfloat kalman_state" where
  "kalman_static_run_float measurement_variance x0 p0 measurements =
     for_enumerate (kalman_static_body_float measurement_variance) 1 measurements
       (kalman_init x0 p0)"

section \<open>Empty measurement sequences\<close>

text \<open>
  C7.  On an empty measurement sequence every loop of the repository (the static model
  with gain 1/n, the alpha-beta and alpha-beta-gamma filters, the Kalman filter with and
  without process noise) returns without an exception; every recorded list of
  predictions, estimates, gains and variances is empty, and the state variables still
  hold the initial values.
\<close>

theorem empty_measurements_empty_trajectory:
  "static_run x0 [] = Inr \<lparr>x_est = x0, estimates = [], predictions = []\<rparr>
   \<and> alpha_beta_run alpha beta delta_t x0 vx0 [] =
       Inr \<lparr>x_est = x0, vx_est = vx0, x_estimates = [], vx_estimates = [],
            x_predictions = [], vx_predictions = []\<rparr>
   \<and> alpha_beta_gamma_run alpha beta gamma delta_t x0 vx0 ax0 [] =
       Inr \<lparr>x_est = x0, vx_est = vx0, x_estimates = [], vx_estimates = [],
            x_predictions = [], vx_predictions = [],
            ax_est = ax0, ax_estimates = [], ax_predictions = []\<rparr>
   \<and> kalman_run q r x0 p0 [] =
       Inr \<lparr>x_est = x0, estimates = [], predictions = [],
            p_est = p0, variances = [], kalman_gains = []\<rparr>
   \<and> kalman_static_run r x0 p0 [] =
       Inr \<lparr>x_est = x0, estimates = [], predictions = [],
            p_est = p0, variances = [], kalman_gains = []\<rparr>"
  by (simp add: static_run_def static_init_def alpha_beta_run_def alpha_beta_init_def
      alpha_beta_gamma_run_def alpha_beta_gamma_init_def kalman_run_def kalman_static_run_def
      kalman_init_def)

section \<open>Ch-3 Ex-2: the alpha-beta scenario and a zero time step\<close>

text \<open>
  C1, as stated, fails: with delta_t = 5, alpha = 0.2, beta = 0.1, initial state
  (30000, 40) and the single measurement 30171 the estimated velocity is not 37.10, not
  even to two decimals.
\<close>

theorem alpha_beta_scenario_counterexample:
  "alpha_beta_run 0.2 0.1 5 30000 40 [30171] =
     Inr \<lparr>x_est = 30194.20, vx_est = 39.42, x_estimates = [30194.20], vx_estimates = [39.42],
          x_predictions = [30200], vx_predictions = [40]\<rparr>
   \<and> \<not> \<bar>(39.42 :: real) - 37.10\<bar> \<le> 0.005"
  by (simp add: alpha_beta_run_def alpha_beta_init_def alpha_beta_body_def py_div_def Let_def)

text \<open>
  C1, amended.  In that scenario the predicted range is 30200, the residual is -29, the
  estimated range is 30194.20 and the estimated velocity is 39.42, that is
  40 + 0.1 * (-29) / 5.
\<close>

theorem alpha_beta_scenario:
  "\<exists>s. alpha_beta_run 0.2 0.1 5 30000 40 [30171] = Inr s
       \<and> x_predictions s = [30200]
       \<and> 30171 - x_predictions s ! 0 = - 29
       \<and> x_estimates s = [30194.20]
       \<and> vx_estimates s = [39.42]"
  by (simp add: alpha_beta_run_def alpha_beta_init_def alpha_beta_body_def py_div_def Let_def)

text \<open>
  C6, as stated, fails: with delta_t = 0 and no measurements the alpha-beta loop and the
  alpha-beta-gamma loop do not fail; nothing checks delta_t before the first division.
\<close>

theorem zero_delta_t_counterexample:
  "alpha_beta_run 0.2 0.1 0 30000 40 [] =
     Inr \<lparr>x_est = 30000, vx_est = 40, x_estimates = [], vx_estimates = [],
          x_predictions = [], vx_predictions = []\<rparr>
   \<and> alpha_beta_gamma_run 0.5 0.4 0.1 0 30000 50 0 [] =
     Inr \<lparr>x_est = 30000, vx_est = 50, x_estimates = [], vx_estimates = [],
          x_predictions = [], vx_predictions = [],
          ax_est = 0, ax_estimates = [], ax_predictions = []\<rparr>"
  by (simp add: alpha_beta_run_def alpha_beta_init_def alpha_beta_gamma_run_def
      alpha_beta_gamma_init_def)

text \<open>
  C6, amended.  With delta_t = 0 and at least one measurement the alpha-beta loop and the
  alpha-beta-gamma loop stop at the first step with Python's ZeroDivisionError, raised by
  the division in the velocity correction, so no estimate is produced from an infinite
  correction; with no measurements they return the initial variables and raise
  nothing.
\<close>

theorem zero_delta_t_raises:
  "alpha_beta_run alpha beta 0 x0 vx0 (z # zs) = Inl ZeroDivisionError
   \<and> alpha_beta_gamma_run alpha beta gamma 0 x0 vx0 ax0 (z # zs) = Inl ZeroDivisionError
   \<and> alpha_beta_run alpha beta 0 x0 vx0 [] = Inr (alpha_beta_init x0 vx0)
   \<and> alpha_beta_gamma_run alpha beta gamma 0 x0 vx0 ax0 [] =
       Inr (alpha_beta_gamma_init x0 vx0 ax0)"
  by (simp add: alpha_beta_run_def alpha_beta_body_def alpha_beta_gamma_run_def
      alpha_beta_gamma_body_def py_div_def Let_def)

section \<open>Empty measurement sequences on floats\<close>

text \<open>
  On an empty measurement sequence the float loops return the initial variables as
  well.
\<close>

lemma empty_measurements_float:
  "static_run_float x0 [] = Inr \<lparr>x_est = x0, estimates = [], predictions = []\<rparr>
   \<and> alpha_beta_gamma_run_float pow2 alpha beta gamma delta_t x0 vx0 ax0 [] =
       Inr \<lparr>x_est = x0, vx_est = vx0, x_estimates = [], vx_estimates = [],
            x_predictions = [], vx_predictions = [],
            ax_est = ax0, ax_estimates = [], ax_predictions = []\<rparr>
   \<and> kalman_run_float q r x0 p0 [] =
       Inr \<lparr>x_est = x0, estimates = [], predictions = [],
            p_est = p0, variances = [], kalman_gains = []\<rparr>
   \<and> kalman_static_run_float r x0 p0 [] =
       Inr \<lparr>x_est = x0, estimates = [], predictions = [],
            p_est = p0, variances = [], kalman_gains = []\<rparr>"
  by (simp add: static_run_float_def static_init_def alpha_beta_gamma_run_float_def
      alpha_beta_gamma_init_def kalman_run_float_def kalman_static_run_float_def
      kalman_init_def)

section \<open>Rounding to the nearest float\<close>

text \<open>
  Properties of \<open>round_half_even\<close>, \<open>round_nearest_even\<close> and \<open>to_float\<close>: rounding
  is monotone, it fixes the floats, and within a binade it is the rounding of the
  significand to an integer, which is how it is evaluated on concrete numbers
  (\<open>to_float_eval\<close>).
\<close>

lemma rhe_of_int: "round_half_even (of_int k) = k"
  by (simp add: round_half_even_def)

lemma rhe_bounds: "\<lfloor>t\<rfloor> \<le> round_half_even t" "round_half_even t \<le> \<lfloor>t\<rfloor> + 1"
  by (simp_all add: round_half_even_def Let_def)

lemma rhe_mono:
  assumes "t \<le> s"
  shows "round_half_even t \<le> round_half_even s"
proof (cases "\<lfloor>t\<rfloor> = \<lfloor>s\<rfloor>")
  case True
  with assms show ?thesis
    by (auto simp: round_half_even_def Let_def)
next
  case False
  with assms have "\<lfloor>t\<rfloor> < \<lfloor>s\<rfloor>"
    using floor_mono [of t s] by linarith
  with rhe_bounds(2) [of t] rhe_bounds(1) [of s] show ?thesis by linarith
qed

lemma rhe_le_int: "t \<le> of_int k \<Longrightarrow> round_half_even t \<le> k"
  using rhe_mono [of t "of_int k"] by (simp add: rhe_of_int)

lemma rhe_ge_int: "of_int k \<le> t \<Longrightarrow> k \<le> round_half_even t"
  using rhe_mono [of "of_int k" t] by (simp add: rhe_of_int)

lemma ulp_pos: "0 < ulp x"
  by (simp add: ulp_def)

lemma ulp_minus: "ulp (- x) = ulp x"
  by (simp add: ulp_def)

lemma ulp_abs: "ulp \<bar>x\<bar> = ulp x"
  by (simp add: ulp_def)

lemma rne_0: "round_nearest_even 0 = 0"
  by (simp add: round_nearest_even_def)

lemma rne_minus: "round_nearest_even (- x) = - round_nearest_even x"
  by (simp add: round_nearest_even_def ulp_minus sgn_minus)

lemma rne_pos: "0 < x \<Longrightarrow> round_nearest_even x = of_int (round_half_even (x / ulp x)) * ulp x"
  by (simp add: round_nearest_even_def)

lemma floor_log2_bounds:
  assumes "0 < a"
  shows "2 powi \<lfloor>log 2 a\<rfloor> \<le> a" "a < 2 powi (\<lfloor>log 2 a\<rfloor> + 1)"
proof -
  have "(2::real) powr real_of_int \<lfloor>log 2 a\<rfloor> = 2 powi \<lfloor>log 2 a\<rfloor>"
       "(2::real) powr (real_of_int \<lfloor>log 2 a\<rfloor> + 1) = 2 powi (\<lfloor>log 2 a\<rfloor> + 1)"
    using powr_real_of_int' [of "2::real" "\<lfloor>log 2 a\<rfloor>"]
      powr_real_of_int' [of "2::real" "\<lfloor>log 2 a\<rfloor> + 1"] by simp_all
  moreover have "2 powr real_of_int \<lfloor>log 2 a\<rfloor> \<le> a \<and> a < 2 powr (real_of_int \<lfloor>log 2 a\<rfloor> + 1)"
    using assms floor_log_eq_powr_iff [of a 2 "\<lfloor>log 2 a\<rfloor>"] by simp
  ultimately show "2 powi \<lfloor>log 2 a\<rfloor> \<le> a" "a < 2 powi (\<lfloor>log 2 a\<rfloor> + 1)"
    by simp_all
qed

lemma floor_log2_eqI:
  assumes "2 powi E \<le> a" "a < 2 powi (E + 1)"
  shows "\<lfloor>log 2 a\<rfloor> = E"
proof -
  have pos: "0 < a"
    using assms(1) zero_less_power_int [of "2::real" E] by linarith
  have "(2::real) powr real_of_int E = 2 powi E" "(2::real) powr (real_of_int E + 1) = 2 powi (E + 1)"
    using powr_real_of_int' [of "2::real" E] powr_real_of_int' [of "2::real" "E + 1"] by simp_all
  then show ?thesis
    using assms pos by (simp add: floor_log_eq_powr_iff)
qed

lemma powi2_mono: "i \<le> j \<Longrightarrow> (2::real) powi i \<le> 2 powi j"
  by (simp add: power_int_increasing)

lemma powi2_strict_mono: "i < j \<Longrightarrow> (2::real) powi i < 2 powi j"
  by (simp add: power_int_strict_increasing)

lemma ulp_binade: "ulp x = 2 powi (binade \<bar>x\<bar> - 52)"
  by (simp add: ulp_def)

lemma binade_ge: "- 1022 \<le> binade a"
  by (simp add: binade_def)

lemma binade_upper:
  assumes "0 < a"
  shows "a < 2 powi (binade a + 1)"
proof -
  have "a < 2 powi (\<lfloor>log 2 a\<rfloor> + 1)"
    using assms by (rule floor_log2_bounds)
  also have "\<dots> \<le> 2 powi (binade a + 1)"
    by (rule powi2_mono) (simp add: binade_def)
  finally show ?thesis .
qed

lemma binade_lower:
  assumes "0 < a"
  shows "2 powi binade a \<le> a \<or> binade a = - 1022"
proof (cases "- 1022 \<le> \<lfloor>log 2 a\<rfloor>")
  case True
  then have "binade a = \<lfloor>log 2 a\<rfloor>" by (simp add: binade_def)
  with floor_log2_bounds(1) [OF assms] show ?thesis by simp
next
  case False
  then show ?thesis by (simp add: binade_def)
qed

lemma binade_eqI:
  assumes "0 < a" "- 1022 \<le> E" "a < 2 powi (E + 1)" "2 powi E \<le> a \<or> E = - 1022"
  shows "binade a = E"
proof (cases "2 powi E \<le> a")
  case True
  with assms(3) have "\<lfloor>log 2 a\<rfloor> = E" by (intro floor_log2_eqI)
  with assms(2) show ?thesis by (simp add: binade_def)
next
  case False
  with assms(4) have E: "E = - 1022" by simp
  have "2 powi \<lfloor>log 2 a\<rfloor> \<le> a"
    using assms(1) by (rule floor_log2_bounds)
  with False E have "(2::real) powi \<lfloor>log 2 a\<rfloor> < 2 powi (- 1022)" by simp
  then have "\<lfloor>log 2 a\<rfloor> < - 1022"
    using powi2_mono [of "- 1022" "\<lfloor>log 2 a\<rfloor>"] by linarith
  with E show ?thesis by (simp add: binade_def)
qed

lemma binade_mono:
  assumes "0 < a" "a \<le> b"
  shows "binade a \<le> binade b"
proof -
  have "log 2 a \<le> log 2 b" using assms by simp
  then have "\<lfloor>log 2 a\<rfloor> \<le> \<lfloor>log 2 b\<rfloor>" by (rule floor_mono)
  then show ?thesis by (simp add: binade_def)
qed

lemma powi2_53: "(2::real) powi (E + 1) = of_int (2 ^ 53) * 2 powi (E - 52)"
proof -
  have "E + 1 = 53 + (E - 52)" by simp
  then have "(2::real) powi (E + 1) = 2 powi (53 + (E - 52))" by (rule arg_cong)
  also have "\<dots> = 2 powi 53 * 2 powi (E - 52)" by (subst power_int_add) simp_all
  finally show ?thesis by simp
qed

lemma powi2_52: "(2::real) powi E = of_int (2 ^ 52) * 2 powi (E - 52)"
proof -
  have "E = 52 + (E - 52)" by simp
  then have "(2::real) powi E = 2 powi (52 + (E - 52))" by (rule arg_cong)
  also have "\<dots> = 2 powi 52 * 2 powi (E - 52)" by (subst power_int_add) simp_all
  finally show ?thesis by simp
qed

lemma rne_pos_binade:
  assumes "0 < a"
  shows "round_nearest_even a =
    of_int (round_half_even (a / 2 powi (binade a - 52))) * 2 powi (binade a - 52)"
  using assms by (simp add: rne_pos ulp_binade)

lemma rne_nonneg:
  assumes "0 \<le> a"
  shows "0 \<le> round_nearest_even a"
proof (cases "a = 0")
  case True
  then show ?thesis by (simp add: rne_0)
next
  case False
  with assms have pos: "0 < a" by simp
  have "0 \<le> a / 2 powi (binade a - 52)" using pos by simp
  then have "0 \<le> round_half_even (a / 2 powi (binade a - 52))"
    using rhe_ge_int [of 0] by simp
  then show ?thesis by (simp add: rne_pos_binade [OF pos])
qed

lemma rne_upper:
  assumes "0 < a"
  shows "round_nearest_even a \<le> 2 powi (binade a + 1)"
proof -
  let ?u = "(2::real) powi (binade a - 52)"
  have u: "0 < ?u" by simp
  have "a \<le> of_int (2 ^ 53) * ?u"
    using binade_upper [OF assms] powi2_53 [of "binade a"] by simp
  then have "a / ?u \<le> of_int (2 ^ 53)"
    using u by (simp add: pos_divide_le_eq)
  then have "round_half_even (a / ?u) \<le> 2 ^ 53" by (rule rhe_le_int)
  then have "of_int (round_half_even (a / ?u)) * ?u \<le> of_int (2 ^ 53) * ?u"
    using u by (intro mult_right_mono) simp_all
  then show ?thesis
    using powi2_53 [of "binade a"] by (simp add: rne_pos_binade [OF assms])
qed

lemma rne_lower:
  assumes "0 < a" "2 powi binade a \<le> a"
  shows "2 powi binade a \<le> round_nearest_even a"
proof -
  let ?u = "(2::real) powi (binade a - 52)"
  have u: "0 < ?u" by simp
  have "of_int (2 ^ 52) * ?u \<le> a"
    using assms(2) powi2_52 [of "binade a"] by simp
  then have "of_int (2 ^ 52) \<le> a / ?u"
    using u by (simp add: pos_le_divide_eq)
  then have "2 ^ 52 \<le> round_half_even (a / ?u)" by (rule rhe_ge_int)
  then have "of_int (2 ^ 52) * ?u \<le> of_int (round_half_even (a / ?u)) * ?u"
    using u by (intro mult_right_mono) simp_all
  then show ?thesis
    using powi2_52 [of "binade a"] by (simp add: rne_pos_binade [OF assms(1)])
qed

lemma rne_mono_pos:
  assumes "0 < x" "x \<le> y"
  shows "round_nearest_even x \<le> round_nearest_even y"
proof -
  have y: "0 < y" using assms by simp
  have le: "binade x \<le> binade y" using assms by (rule binade_mono)
  show ?thesis
  proof (cases "binade x = binade y")
    case True
    let ?u = "(2::real) powi (binade y - 52)"
    have "x / ?u \<le> y / ?u" using assms(2) by (simp add: divide_right_mono)
    then have "round_half_even (x / ?u) \<le> round_half_even (y / ?u)" by (rule rhe_mono)
    then have "of_int (round_half_even (x / ?u)) * ?u \<le> of_int (round_half_even (y / ?u)) * ?u"
      by (intro mult_right_mono) simp_all
    then show ?thesis
      using True by (simp add: rne_pos_binade [OF assms(1)] rne_pos_binade [OF y])
  next
    case False
    with le have lt: "binade x + 1 \<le> binade y" by simp
    with binade_ge [of x] have "binade y \<noteq> - 1022" by simp
    with binade_lower [OF y] have "2 powi binade y \<le> y" by simp
    then have "2 powi binade y \<le> round_nearest_even y" by (rule rne_lower [OF y])
    moreover have "round_nearest_even x \<le> 2 powi (binade x + 1)" by (rule rne_upper [OF assms(1)])
    moreover have "(2::real) powi (binade x + 1) \<le> 2 powi binade y" by (rule powi2_mono [OF lt])
    ultimately show ?thesis by linarith
  qed
qed

lemma rne_mono:
  assumes "x \<le> y"
  shows "round_nearest_even x \<le> round_nearest_even y"
proof -
  consider "0 < x" | "x \<le> 0" "0 \<le> y" | "y < 0" by linarith
  then show ?thesis
  proof cases
    case 1
    then show ?thesis using assms by (rule rne_mono_pos)
  next
    case 2
    have "0 \<le> round_nearest_even (- x)" using 2(1) by (intro rne_nonneg) simp
    then have "round_nearest_even x \<le> 0" by (simp add: rne_minus)
    moreover have "0 \<le> round_nearest_even y" using 2(2) by (rule rne_nonneg)
    ultimately show ?thesis by linarith
  next
    case 3
    then have "0 < - y" "- y \<le> - x" using assms by simp_all
    then have "round_nearest_even (- y) \<le> round_nearest_even (- x)" by (rule rne_mono_pos)
    then show ?thesis by (simp add: rne_minus)
  qed
qed

lemma rne_idem_pos:
  assumes "0 < a"
  shows "round_nearest_even (round_nearest_even a) = round_nearest_even a"
proof -
  define E where "E = binade a"
  define u :: real where "u = 2 powi (E - 52)"
  define k where "k = round_half_even (a / u)"
  have u: "0 < u" by (simp add: u_def)
  have y: "round_nearest_even a = of_int k * u"
    using rne_pos_binade [OF assms] by (simp add: k_def u_def E_def)
  have k0: "0 \<le> k"
    using rne_nonneg [of a] assms u unfolding y by (simp add: zero_le_mult_iff)
  have "of_int k * u \<le> of_int (2 ^ 53) * u"
    using rne_upper [OF assms] powi2_53 [of E] unfolding y by (simp add: E_def u_def)
  then have k53: "k \<le> 2 ^ 53"
    using u by (simp add: mult_le_cancel_right)
  consider "k = 0" | "k = 2 ^ 53" | "0 < k" "k < 2 ^ 53"
    using k0 k53 by linarith
  then show ?thesis
  proof cases
    case 1
    then show ?thesis unfolding y by (simp add: rne_0)
  next
    case 2
    have yv: "of_int k * u = 2 powi (E + 1)"
      using powi2_53 [of E] 2 by (simp add: u_def)
    have pos: "(0::real) < 2 powi (E + 1)" by simp
    have b: "binade (2 powi (E + 1)) = E + 1"
    proof (rule binade_eqI [OF pos])
      show "- 1022 \<le> E + 1" using binade_ge [of a] by (simp add: E_def)
      show "(2::real) powi (E + 1) < 2 powi (E + 1 + 1)" by (rule powi2_strict_mono) simp
      show "(2::real) powi (E + 1) \<le> 2 powi (E + 1) \<or> E + 1 = - 1022" by simp
    qed
    have "(2::real) powi (E + 1) / 2 powi (E + 1 - 52) = of_int (2 ^ 52)"
      using powi2_52 [of "E + 1"] by simp
    then have "round_half_even (2 powi (E + 1) / 2 powi (E + 1 - 52)) = 2 ^ 52"
      by (simp only: rhe_of_int)
    then have "round_nearest_even (2 powi (E + 1)) = of_int (2 ^ 52) * 2 powi (E + 1 - 52)"
      using rne_pos_binade [OF pos] by (simp only: b)
    also have "\<dots> = 2 powi (E + 1)"
      using powi2_52 [of "E + 1"] by simp
    finally show ?thesis unfolding y yv .
  next
    case 3
    have pos: "0 < of_int k * u" using 3(1) u by simp
    have "of_int k * u < of_int (2 ^ 53) * u"
      using 3(2) u by (simp add: mult_less_cancel_right)
    then have up: "of_int k * u < 2 powi (E + 1)"
      using powi2_53 [of E] by (simp add: u_def)
    have lo: "2 powi E \<le> of_int k * u \<or> E = - 1022"
    proof (cases "E = - 1022")
      case True
      then show ?thesis by simp
    next
      case False
      with binade_lower [OF assms] have "2 powi binade a \<le> a" by (simp add: E_def)
      from rne_lower [OF assms this] show ?thesis unfolding y by (simp add: E_def)
    qed
    have b: "binade (of_int k * u) = E"
      using pos _ up lo by (rule binade_eqI) (simp add: E_def binade_ge)
    have "of_int k * u / 2 powi (E - 52) = of_int k"
      by (simp add: u_def)
    then have "round_half_even (of_int k * u / 2 powi (E - 52)) = k"
      by (simp only: rhe_of_int)
    then have "round_nearest_even (of_int k * u) = of_int k * 2 powi (E - 52)"
      using rne_pos_binade [OF pos] by (simp only: b)
    then show ?thesis unfolding y by (simp add: u_def)
  qed
qed

lemma rne_idem: "round_nearest_even (round_nearest_even x) = round_nearest_even x"
proof -
  consider "0 < x" | "x = 0" | "x < 0" by linarith
  then show ?thesis
  proof cases
    case 1
    then show ?thesis by (rule rne_idem_pos)
  next
    case 2
    then show ?thesis by (simp add: rne_0)
  next
    case 3
    then have "0 < - x" by simp
    from rne_idem_pos [OF this] show ?thesis by (simp add: rne_minus)
  qed
qed

lemma rne_eval:
  assumes "x \<noteq> 0" "- 1022 \<le> E" "\<bar>x\<bar> < 2 powi (E + 1)" "2 powi E \<le> \<bar>x\<bar> \<or> E = - 1022"
  shows "round_nearest_even x =
    sgn x * (of_int (round_half_even (\<bar>x\<bar> / 2 powi (E - 52))) * 2 powi (E - 52))"
proof -
  have "0 < \<bar>x\<bar>" using assms(1) by simp
  from binade_eqI [OF this assms(2-4)] show ?thesis
    by (simp add: round_nearest_even_def ulp_binade)
qed

lemma to_float_Finite_iff:
  "to_float x = Finite y \<longleftrightarrow>
     y = round_nearest_even x \<and> - (2 ^ 1024) < round_nearest_even x
     \<and> round_nearest_even x < 2 ^ 1024"
  by (auto simp: to_float_def Let_def)

lemma to_float_PInf_iff: "to_float x = PInf \<longleftrightarrow> 2 ^ 1024 \<le> round_nearest_even x"
  by (auto simp: to_float_def Let_def)

lemma to_float_NInf_iff: "to_float x = NInf \<longleftrightarrow> round_nearest_even x \<le> - (2 ^ 1024)"
proof -
  have "\<not> (2::real) ^ 1024 \<le> - (2 ^ 1024)" by simp
  then show ?thesis
    by (auto simp: to_float_def Let_def)
qed

lemma to_float_not_NaN: "to_float x \<noteq> NaN"
  by (simp add: to_float_def Let_def)

lemma is_float_iff:
  "is_float x \<longleftrightarrow> round_nearest_even x = x \<and> - (2 ^ 1024) < x \<and> x < 2 ^ 1024"
  by (auto simp: is_float_def to_float_Finite_iff)

lemma is_float_to_float:
  assumes "to_float x = Finite y"
  shows "is_float y"
  using assms by (simp add: is_float_iff to_float_Finite_iff rne_idem)

lemma to_float_is_float: "is_float x \<Longrightarrow> to_float x = Finite x"
  by (simp add: is_float_def)

lemma to_float_0: "to_float 0 = Finite 0"
  by (simp add: to_float_Finite_iff rne_0)

lemma is_float_0: "is_float 0"
  by (simp add: is_float_iff rne_0)

lemma to_float_eval:
  assumes "x \<noteq> 0" "- 1022 \<le> E" "\<bar>x\<bar> < 2 powi (E + 1)" "2 powi E \<le> \<bar>x\<bar> \<or> E = - 1022"
  shows "to_float x =
    (let y = sgn x * (of_int (round_half_even (\<bar>x\<bar> / 2 powi (E - 52))) * 2 powi (E - 52))
     in if 2 ^ 1024 \<le> y then PInf else if y \<le> - (2 ^ 1024) then NInf else Finite y)"
  using rne_eval [OF assms] by (simp only: to_float_def)

lemma is_float_1: "is_float 1"
  using to_float_eval [of 1 0] by (simp add: is_float_def round_half_even_def power_int_minus)

lemma to_float_between:
  assumes "is_float lo" "is_float hi" "lo \<le> x" "x \<le> hi"
  shows "\<exists>y. to_float x = Finite y \<and> lo \<le> y \<and> y \<le> hi \<and> is_float y"
proof -
  have lo: "lo \<le> round_nearest_even x"
    using rne_mono [OF assms(3)] assms(1) by (simp add: is_float_iff)
  have hi: "round_nearest_even x \<le> hi"
    using rne_mono [OF assms(4)] assms(2) by (simp add: is_float_iff)
  have "- (2 ^ 1024) < round_nearest_even x" "round_nearest_even x < 2 ^ 1024"
    using lo hi assms(1,2) by (simp_all add: is_float_iff)
  then have "to_float x = Finite (round_nearest_even x)"
    by (simp add: to_float_Finite_iff)
  with lo hi is_float_to_float show ?thesis by blast
qed

lemma to_float_ge:
  assumes "is_float lo" "lo \<le> x"
  shows "to_float x = PInf \<or> (\<exists>y. to_float x = Finite y \<and> lo \<le> y \<and> is_float y)"
proof (cases "2 ^ 1024 \<le> round_nearest_even x")
  case True
  then show ?thesis by (simp add: to_float_PInf_iff)
next
  case False
  have lo: "lo \<le> round_nearest_even x"
    using rne_mono [OF assms(2)] assms(1) by (simp add: is_float_iff)
  then have "- (2 ^ 1024) < round_nearest_even x"
    using assms(1) by (simp add: is_float_iff)
  with False have "to_float x = Finite (round_nearest_even x)"
    by (simp add: to_float_Finite_iff)
  with lo is_float_to_float show ?thesis by blast
qed

lemma to_float_Finite_mono:
  assumes "to_float x = Finite a" "to_float y = Finite b" "x \<le> y"
  shows "a \<le> b"
  using assms rne_mono [of x y] by (simp add: to_float_Finite_iff)

lemma to_float_1: "to_float 1 = Finite 1"
  using is_float_1 by (simp add: is_float_def)

section \<open>Ch-3 Ex-1 on floats: running means and the first estimate\<close>

lemma static_body_float_step:
  assumes "0 < n"
  shows "static_body_float n z s =
     Inr \<lparr>x_est = fadd (x_est s) (fmul (to_float (1 / real n)) (fsub z (x_est s))),
          estimates = estimates s
            @ [fadd (x_est s) (fmul (to_float (1 / real n)) (fsub z (x_est s)))],
          predictions = predictions s @ [x_est s]\<rparr>"
  using assms by (simp add: static_body_float_def Let_def)

lemma static_float_loop:
  assumes "0 < n" "x_est s = x_est t"
  shows "\<exists>s' t' es. for_enumerate static_body_float n zs s = Inr s'
           \<and> for_enumerate static_body_float n zs t = Inr t'
           \<and> estimates s' = estimates s @ es
           \<and> estimates t' = estimates t @ es
           \<and> length es = length zs
           \<and> length (predictions s') = length (predictions s) + length zs"
  using assms
proof (induction zs arbitrary: n s t)
  case Nil
  then show ?case by simp
next
  case (Cons z zs)
  define e where "e = fadd (x_est s) (fmul (to_float (1 / real n)) (fsub z (x_est s)))"
  define s1 where "s1 = \<lparr>x_est = e, estimates = estimates s @ [e],
                          predictions = predictions s @ [x_est s]\<rparr>"
  define t1 where "t1 = \<lparr>x_est = e, estimates = estimates t @ [e],
                          predictions = predictions t @ [x_est t]\<rparr>"
  have s1: "static_body_float n z s = Inr s1"
    using static_body_float_step [OF Cons.prems(1), of z s] by (simp add: s1_def e_def)
  have t1: "static_body_float n z t = Inr t1"
    using static_body_float_step [OF Cons.prems(1), of z t] Cons.prems(2)
    by (simp add: t1_def e_def)
  have "0 < Suc n" "x_est s1 = x_est t1" by (simp_all add: s1_def t1_def)
  from Cons.IH [OF this] obtain s' t' es where
    run: "for_enumerate static_body_float (Suc n) zs s1 = Inr s'"
         "for_enumerate static_body_float (Suc n) zs t1 = Inr t'"
    and est: "estimates s' = estimates s1 @ es" "estimates t' = estimates t1 @ es"
    and len: "length es = length zs"
             "length (predictions s') = length (predictions s1) + length zs"
    by blast
  have "for_enumerate static_body_float n (z # zs) s = Inr s'"
       "for_enumerate static_body_float n (z # zs) t = Inr t'"
    using s1 t1 run by simp_all
  moreover have "estimates s' = estimates s @ (e # es)" "estimates t' = estimates t @ (e # es)"
    using est by (simp_all add: s1_def t1_def)
  moreover have "length (e # es) = length (z # zs)"
    "length (predictions s') = length (predictions s) + length (z # zs)"
    using len by (simp_all add: s1_def)
  ultimately show ?case by blast
qed


lemma static_first_step:
  assumes "is_float z" "is_float (z - x0)"
  shows "static_body_float 1 (Finite z) (static_init (Finite x0)) =
     Inr \<lparr>x_est = Finite z, estimates = [Finite z], predictions = [Finite x0]\<rparr>"
proof -
  have "fsub (Finite z) (Finite x0) = Finite (z - x0)"
    using assms(2) by (simp add: fsub_def is_float_def)
  moreover have "fmul (Finite 1) (Finite (z - x0)) = Finite (z - x0)"
    using assms(2) by (simp add: is_float_def)
  moreover have "fadd (Finite x0) (Finite (z - x0)) = Finite z"
    using assms(1) by (simp add: is_float_def)
  ultimately show ?thesis
    by (simp del: fadd.simps fmul.simps
          add: static_body_float_def static_init_def Let_def to_float_1)
qed



text \<open>
  C9, as stated, fails on Python floats.  With initial estimate 1e20 and first
  measurement 1 the subtraction 1 - 1e20 rounds to -1e20 and the estimate of step 1 is
  0.0, not 1.  With the script's initial estimate 1000.0 and first measurement 100.3
  (the float 7057985041019699 / 2^46) the estimate of step 1 is
  441124065063731 / 2^42 = 100.29999999999995..., not the measurement.
\<close>

theorem static_first_estimate_counterexample:
  "is_float (10 ^ 20)
   \<and> is_float 1
   \<and> static_run_float (Finite (10 ^ 20)) [Finite 1] =
       Inr \<lparr>x_est = Finite 0,
          estimates = [Finite 0],
          predictions = [Finite (10 ^ 20)]\<rparr>
   \<and> (0 :: real) \<noteq> 1
   \<and> is_float 1000
   \<and> is_float (7057985041019699 / 70368744177664)
   \<and> static_run_float (Finite 1000) [Finite (7057985041019699 / 70368744177664)] =
       Inr \<lparr>x_est = Finite (441124065063731 / 4398046511104),
          estimates = [Finite (441124065063731 / 4398046511104)],
          predictions = [Finite 1000]\<rparr>
   \<and> (441124065063731 / 4398046511104 :: real) \<noteq> 7057985041019699 / 70368744177664"
proof -
  define c1 :: real where "c1 = 10 ^ 20"
  define c2 :: real where "c2 = 1"
  define c3 :: real where "c3 = 1"
  have f_1: "fdiv (Finite 1) (Finite 1) = Inr (Finite c3)"
    using to_float_eval [of "1 / 1" "0"]
    by (simp add: c3_def fsub_def round_half_even_def power_int_minus)
  define c4 :: real where "c4 = - (100000000000000000000)"
  have f_2: "fsub (Finite c2) (Finite c1) = Finite c4"
    using to_float_eval [of "c2 - c1" "66"]
    by (simp add: c2_def c1_def c4_def fsub_def round_half_even_def power_int_minus)
  define c5 :: real where "c5 = - (100000000000000000000)"
  have f_3: "fmul (Finite c3) (Finite c4) = Finite c5"
    using to_float_eval [of "c3 * c4" "66"]
    by (simp add: c3_def c4_def c5_def fsub_def round_half_even_def power_int_minus)
  have f_4: "fadd (Finite c1) (Finite c5) = Finite 0"
    by (simp add: c1_def c5_def fsub_def to_float_0)
  have run_a: "static_run_float (Finite c1) [Finite c2] =
      Inr \<lparr>x_est = Finite 0,
          estimates = [Finite 0],
          predictions = [Finite c1]\<rparr>"
    by (simp del: fadd.simps fmul.simps fdiv.simps
        add: static_run_float_def static_init_def static_body_float_def Let_def f_1 f_2 f_3 f_4)
  define c6 :: real where "c6 = 1000"
  define c7 :: real where "c7 = 7057985041019699 / 70368744177664"
  define c8 :: real where "c8 = - (3956922446040269 / 4398046511104)"
  have f_5: "fsub (Finite c7) (Finite c6) = Finite c8"
    using to_float_eval [of "c7 - c6" "9"]
    by (simp add: c7_def c6_def c8_def fsub_def round_half_even_def power_int_minus)
  define c9 :: real where "c9 = - (3956922446040269 / 4398046511104)"
  have f_6: "fmul (Finite c3) (Finite c8) = Finite c9"
    using to_float_eval [of "c3 * c8" "9"]
    by (simp add: c3_def c8_def c9_def fsub_def round_half_even_def power_int_minus)
  define c10 :: real where "c10 = 441124065063731 / 4398046511104"
  have f_7: "fadd (Finite c6) (Finite c9) = Finite c10"
    using to_float_eval [of "c6 + c9" "6"]
    by (simp add: c6_def c9_def c10_def fsub_def round_half_even_def power_int_minus)
  have run_b: "static_run_float (Finite c6) [Finite c7] =
      Inr \<lparr>x_est = Finite c10,
          estimates = [Finite c10],
          predictions = [Finite c6]\<rparr>"
    by (simp del: fadd.simps fmul.simps fdiv.simps
        add: static_run_float_def static_init_def static_body_float_def Let_def f_1 f_2 f_3 f_4 f_5 f_6 f_7)
  have fl_c1: "is_float c1"
    using to_float_eval [of c1 "66"]
    by (simp add: is_float_def c1_def round_half_even_def power_int_minus)
  have fl_c2: "is_float c2"
    using to_float_eval [of c2 "0"]
    by (simp add: is_float_def c2_def round_half_even_def power_int_minus)
  have fl_c6: "is_float c6"
    using to_float_eval [of c6 "9"]
    by (simp add: is_float_def c6_def round_half_even_def power_int_minus)
  have fl_c7: "is_float c7"
    using to_float_eval [of c7 "6"]
    by (simp add: is_float_def c7_def round_half_even_def power_int_minus)
  have ne_a: "(0 :: real) \<noteq> 1"
    by simp
  have ne_b: "(441124065063731 / 4398046511104 :: real) \<noteq> 7057985041019699 / 70368744177664"
    by simp
  show ?thesis
    using fl_c1 fl_c2 fl_c6 fl_c7 run_a run_b ne_a ne_b
    unfolding c1_def c2_def c3_def c4_def c5_def c6_def c7_def c8_def c9_def c10_def
    by blast
qed

text \<open>
  C9, amended.  When the initial estimate x0 and the first measurement z are floats
  whose difference z - x0 is itself a float (the subtraction is exact and does not
  overflow), the estimate of step 1 is the first measurement, and every recorded
  estimate is that of the run started from the first measurement itself: the initial
  estimate has no influence on them.
\<close>

theorem static_first_estimate:
  assumes "is_float x0" "is_float z" "is_float (z - x0)"
  shows "\<exists>s t. static_run_float (Finite x0) (Finite z # zs) = Inr s
           \<and> length (estimates s) = Suc (length zs)
           \<and> estimates s ! 0 = Finite z
           \<and> static_run_float (Finite z) (Finite z # zs) = Inr t
           \<and> estimates s = estimates t"
proof -
  define s1 :: "pyfloat static_state" where
    "s1 = \<lparr>x_est = Finite z, estimates = [Finite z], predictions = [Finite x0]\<rparr>"
  define t1 :: "pyfloat static_state" where
    "t1 = \<lparr>x_est = Finite z, estimates = [Finite z], predictions = [Finite z]\<rparr>"
  have s1: "static_body_float 1 (Finite z) (static_init (Finite x0)) = Inr s1"
    using static_first_step [OF assms(2,3)] by (simp add: s1_def)
  have "is_float (z - z)" by (simp add: is_float_0)
  from static_first_step [OF assms(2) this]
  have t1: "static_body_float 1 (Finite z) (static_init (Finite z)) = Inr t1"
    by (simp add: t1_def)
  have "0 < Suc 1" "x_est s1 = x_est t1" by (simp_all add: s1_def t1_def)
  from static_float_loop [OF this, where zs = zs] obtain s t es where
    run: "for_enumerate static_body_float (Suc 1) zs s1 = Inr s"
         "for_enumerate static_body_float (Suc 1) zs t1 = Inr t"
    and est: "estimates s = estimates s1 @ es" "estimates t = estimates t1 @ es"
    and len: "length es = length zs"
    by blast
  have "static_run_float (Finite x0) (Finite z # zs) = Inr s"
       "static_run_float (Finite z) (Finite z # zs) = Inr t"
    using s1 t1 run by (simp_all add: static_run_float_def)
  moreover have "estimates s = Finite z # es" "estimates t = Finite z # es"
    using est by (simp_all add: s1_def t1_def)
  ultimately show ?thesis using len by simp
qed

text \<open>
  The script's data: initial estimate 1000.0, measurements 996 and 994.
\<close>

theorem static_first_estimate_witness:
  "is_float 1000 \<and> is_float 996 \<and> is_float (996 - 1000)
   \<and> (\<exists>s. static_run_float (Finite 1000) [Finite 996, Finite 994] = Inr s
          \<and> estimates s ! 0 = Finite 996)"
proof -
  define x0 :: real where "x0 = 1000"
  define z :: real where "z = 996"
  have a: "is_float x0"
    using to_float_eval [of x0 9]
    by (simp add: is_float_def x0_def round_half_even_def power_int_minus)
  have b: "is_float z"
    using to_float_eval [of z 9]
    by (simp add: is_float_def z_def round_half_even_def power_int_minus)
  have c: "is_float (z - x0)"
    using to_float_eval [of "z - x0" 2]
    by (simp add: is_float_def z_def x0_def round_half_even_def power_int_minus)
  from static_first_estimate [OF a b c, of "[Finite 994]"] obtain s where
    "static_run_float (Finite x0) [Finite z, Finite 994] = Inr s" "estimates s ! 0 = Finite z"
    by blast
  with a b c show ?thesis
    unfolding x0_def z_def by blast
qed

section \<open>Ch-3 Ex-4 on floats: the constant-acceleration prediction\<close>

lemma alpha_beta_gamma_body_float_step:
  assumes "alpha_beta_gamma_body_float pow2 alpha beta gamma delta_t n z s = Inr s'"
  shows "\<exists>delta_t_2. pow2 delta_t = Inr delta_t_2
           \<and> x_predictions s' = x_predictions s @
                [fadd (fadd (x_est s) (fmul delta_t (vx_est s)))
                   (fmul (fmul (Finite 0.5) (ax_est s)) delta_t_2)]
           \<and> vx_predictions s' = vx_predictions s @ [fadd (vx_est s) (fmul (ax_est s) delta_t)]
           \<and> ax_predictions s' = ax_predictions s @ [ax_est s]
           \<and> x_estimates s' = x_estimates s @ [x_est s']
           \<and> vx_estimates s' = vx_estimates s @ [vx_est s']
           \<and> ax_estimates s' = ax_estimates s @ [ax_est s']"
  using assms
  by (auto simp: alpha_beta_gamma_body_float_def Let_def split: sum.splits if_splits)

lemma alpha_beta_gamma_float_loop:
  assumes "for_enumerate (alpha_beta_gamma_body_float pow2 alpha beta gamma delta_t) n zs s = Inr s'"
  shows "\<exists>xp vp ap xe ve ae.
           x_predictions s' = x_predictions s @ xp
           \<and> vx_predictions s' = vx_predictions s @ vp
           \<and> ax_predictions s' = ax_predictions s @ ap
           \<and> x_estimates s' = x_estimates s @ xe
           \<and> vx_estimates s' = vx_estimates s @ ve
           \<and> ax_estimates s' = ax_estimates s @ ae
           \<and> length xp = length zs \<and> length vp = length zs \<and> length ap = length zs
           \<and> length xe = length zs \<and> length ve = length zs \<and> length ae = length zs
           \<and> (\<forall>i<length zs.
                 \<exists>delta_t_2. pow2 delta_t = Inr delta_t_2
                 \<and> xp ! i = fadd (fadd ((x_est s # xe) ! i) (fmul delta_t ((vx_est s # ve) ! i)))
                              (fmul (fmul (Finite 0.5) ((ax_est s # ae) ! i)) delta_t_2)
                 \<and> vp ! i = fadd ((vx_est s # ve) ! i) (fmul ((ax_est s # ae) ! i) delta_t)
                 \<and> ap ! i = (ax_est s # ae) ! i)"
  using assms
proof (induction zs arbitrary: n s)
  case Nil
  then show ?case by simp
next
  case (Cons z zs)
  from Cons.prems obtain s1 where
    step: "alpha_beta_gamma_body_float pow2 alpha beta gamma delta_t n z s = Inr s1"
    and rest: "for_enumerate (alpha_beta_gamma_body_float pow2 alpha beta gamma delta_t) (Suc n) zs s1
                 = Inr s'"
    by (auto split: sum.splits)
  from alpha_beta_gamma_body_float_step [OF step] obtain d2 where
    d2: "pow2 delta_t = Inr d2"
    and p1: "x_predictions s1 = x_predictions s @
                [fadd (fadd (x_est s) (fmul delta_t (vx_est s)))
                   (fmul (fmul (Finite 0.5) (ax_est s)) d2)]"
            "vx_predictions s1 = vx_predictions s @ [fadd (vx_est s) (fmul (ax_est s) delta_t)]"
            "ax_predictions s1 = ax_predictions s @ [ax_est s]"
    and e1: "x_estimates s1 = x_estimates s @ [x_est s1]"
            "vx_estimates s1 = vx_estimates s @ [vx_est s1]"
            "ax_estimates s1 = ax_estimates s @ [ax_est s1]"
    by blast
  from Cons.IH [OF rest] obtain xp vp ap xe ve ae where
    p: "x_predictions s' = x_predictions s1 @ xp"
       "vx_predictions s' = vx_predictions s1 @ vp"
       "ax_predictions s' = ax_predictions s1 @ ap"
    and e: "x_estimates s' = x_estimates s1 @ xe"
           "vx_estimates s' = vx_estimates s1 @ ve"
           "ax_estimates s' = ax_estimates s1 @ ae"
    and len: "length xp = length zs" "length vp = length zs" "length ap = length zs"
             "length xe = length zs" "length ve = length zs" "length ae = length zs"
    and all: "\<And>i. i < length zs \<Longrightarrow>
                 \<exists>delta_t_2. pow2 delta_t = Inr delta_t_2
                 \<and> xp ! i = fadd (fadd ((x_est s1 # xe) ! i) (fmul delta_t ((vx_est s1 # ve) ! i)))
                              (fmul (fmul (Finite 0.5) ((ax_est s1 # ae) ! i)) delta_t_2)
                 \<and> vp ! i = fadd ((vx_est s1 # ve) ! i) (fmul ((ax_est s1 # ae) ! i) delta_t)
                 \<and> ap ! i = (ax_est s1 # ae) ! i"
    by blast
  let ?xp = "fadd (fadd (x_est s) (fmul delta_t (vx_est s)))
               (fmul (fmul (Finite 0.5) (ax_est s)) d2) # xp"
  let ?vp = "fadd (vx_est s) (fmul (ax_est s) delta_t) # vp"
  let ?ap = "ax_est s # ap"
  let ?xe = "x_est s1 # xe"
  let ?ve = "vx_est s1 # ve"
  let ?ae = "ax_est s1 # ae"
  have nth: "\<exists>delta_t_2. pow2 delta_t = Inr delta_t_2
                 \<and> ?xp ! i = fadd (fadd ((x_est s # ?xe) ! i) (fmul delta_t ((vx_est s # ?ve) ! i)))
                              (fmul (fmul (Finite 0.5) ((ax_est s # ?ae) ! i)) delta_t_2)
                 \<and> ?vp ! i = fadd ((vx_est s # ?ve) ! i) (fmul ((ax_est s # ?ae) ! i) delta_t)
                 \<and> ?ap ! i = (ax_est s # ?ae) ! i" if "i < length (z # zs)" for i
  proof (cases i)
    case 0
    then show ?thesis using d2 by simp
  next
    case (Suc j)
    then have "j < length zs" using that by simp
    from all [OF this] show ?thesis using Suc by simp
  qed
  have "x_predictions s' = x_predictions s @ ?xp" "vx_predictions s' = vx_predictions s @ ?vp"
    "ax_predictions s' = ax_predictions s @ ?ap"
    using p p1 by simp_all
  moreover have "x_estimates s' = x_estimates s @ ?xe" "vx_estimates s' = vx_estimates s @ ?ve"
    "ax_estimates s' = ax_estimates s @ ?ae"
    using e e1 by simp_all
  moreover have "length ?xp = length (z # zs)" "length ?vp = length (z # zs)"
    "length ?ap = length (z # zs)" "length ?xe = length (z # zs)"
    "length ?ve = length (z # zs)" "length ?ae = length (z # zs)"
    using len by simp_all
  ultimately show ?case using nth by blast
qed

lemma alpha_beta_gamma_first_prediction:
  assumes "pow2 (Finite 5) = Inr (Finite 25)"
  shows "\<exists>s. alpha_beta_gamma_run_float pow2 alpha beta gamma (Finite 5)
               (Finite 30000) (Finite 50) (Finite 0) [z] = Inr s
           \<and> x_predictions s = [Finite 30250] \<and> vx_predictions s = [Finite 50]
           \<and> ax_predictions s = [Finite 0]"
proof -
  define dt :: real where "dt = 5"
  define d2 :: real where "d2 = 25"
  define x :: real where "x = 30000"
  define v :: real where "v = 50"
  define m :: real where "m = 250"
  define xp :: real where "xp = 30250"
  define h :: real where "h = 25 / 2"
  have pow: "pow2 (Finite dt) = Inr (Finite d2)"
    using assms by (simp add: dt_def d2_def)
  have f1: "fmul (Finite 1) (Finite dt) = Finite dt"
    using to_float_eval [of "1 * dt" 2]
    by (simp add: dt_def round_half_even_def power_int_minus)
  have f2: "fle (Finite dt) (Finite 20)"
    by (simp add: dt_def)
  have f3: "fmul (Finite dt) (Finite v) = Finite m"
    using to_float_eval [of "dt * v" 7]
    by (simp add: dt_def v_def m_def round_half_even_def power_int_minus)
  have f4: "fadd (Finite x) (Finite m) = Finite xp"
    using to_float_eval [of "x + m" 14]
    by (simp add: x_def m_def xp_def round_half_even_def power_int_minus)
  have f5: "fmul (Finite (1 / 2)) (Finite 0) = Finite 0" "fmul (Finite 0.5) (Finite 0) = Finite 0"
    by (simp_all add: to_float_0)
  have f6: "fmul (Finite 0) (Finite d2) = Finite 0"
    by (simp add: to_float_0)
  have f7: "fadd (Finite xp) (Finite 0) = Finite xp"
    using to_float_eval [of "xp + 0" 14]
    by (simp add: xp_def round_half_even_def power_int_minus)
  have f8: "fmul (Finite 0) (Finite dt) = Finite 0"
    by (simp add: to_float_0)
  have f9: "fadd (Finite v) (Finite 0) = Finite v"
    using to_float_eval [of "v + 0" 5]
    by (simp add: v_def round_half_even_def power_int_minus)
  have f10: "fmul (Finite (1 / 2)) (Finite d2) = Finite h" "fmul (Finite 0.5) (Finite d2) = Finite h"
    using to_float_eval [of "1 / 2 * d2" 3]
    by (simp_all add: d2_def h_def round_half_even_def power_int_minus)
  have nz: "dt \<noteq> 0" "h \<noteq> 0"
    by (simp_all add: dt_def h_def)
  have "\<exists>s. alpha_beta_gamma_run_float pow2 alpha beta gamma (Finite dt)
               (Finite x) (Finite v) (Finite 0) [z] = Inr s
           \<and> x_predictions s = [Finite xp] \<and> vx_predictions s = [Finite v]
           \<and> ax_predictions s = [Finite 0]"
    by (simp del: fadd.simps fmul.simps fle.simps
          add: alpha_beta_gamma_run_float_def alpha_beta_gamma_init_def
            alpha_beta_gamma_body_float_def Let_def pow f1 f2 f3 f4 f5 f6 f7 f8 f9 f10 nz)
  then show ?thesis
    unfolding dt_def x_def v_def xp_def .
qed

text \<open>
  C5, as stated, fails on Python floats.  With delta_t = -2^600 the prediction line
  raises OverflowError in \<^verbatim>\<open>delta_t ** 2\<close>, so the state (30000, 50, 0) is mapped to no
  prediction at all; and from the state (2^53, 1, 0) with delta_t = 1 the predicted
  position is 2^53, not 2^53 + 1 * 1 + 0.5 * 0 * 1^2, because the sum is rounded.
\<close>

theorem alpha_beta_gamma_prediction_counterexample:
  "alpha_beta_gamma_run_float float_square (Finite (1 / 2)) (Finite (1 / 2)) (Finite (1 / 2)) (Finite (- (2 ^ 600))) (Finite 30000) (Finite 50) (Finite 0) [Finite 30221] =
       Inl OverflowError
   \<and> alpha_beta_gamma_run_float float_square (Finite (1 / 2)) (Finite (1 / 2)) (Finite (1 / 2)) (Finite 1) (Finite (2 ^ 53)) (Finite 1) (Finite 0) [Finite (2 ^ 53)] =
       Inr \<lparr>x_est = Finite 9007199254740992, vx_est = Finite 1,
          x_estimates = [Finite 9007199254740992], vx_estimates = [Finite 1],
          x_predictions = [Finite 9007199254740992], vx_predictions = [Finite 1],
          ax_est = Finite 0, ax_estimates = [Finite 0], ax_predictions = [Finite 0]\<rparr>
   \<and> (2 ^ 53 + 1 * 1 + 0.5 * 0 * 1 ^ 2 :: real) \<noteq> 2 ^ 53"
proof -
  define c1 :: real where "c1 = 1 / 2"
  define c2 :: real where "c2 = - (2 ^ 600)"
  define c3 :: real where "c3 = 30000"
  define c4 :: real where "c4 = 50"
  define c5 :: real where "c5 = 30221"
  define c6 :: real where "c6 = - (4149515568880992958512407863691161151012446232242436899995657329690652811412908146399707048947103794288197886611300789182395151075411775307886874834113963687061181803401509523685376)"
  have f_1: "fmul (Finite 1) (Finite c2) = Finite c6"
    using to_float_eval [of "1 * c2" "600"]
    by (simp add: c2_def c6_def fsub_def round_half_even_def power_int_minus)
  have f_2: "fle (Finite c6) (Finite 20)"
    by (simp add: c6_def)
  have f_3: "float_square (Finite c2) = Inl OverflowError"
    using to_float_eval [of "c2 * c2" "1200"]
    by (simp add: float_square_def c2_def round_half_even_def power_int_minus)
  have run_a: "alpha_beta_gamma_run_float float_square (Finite c1) (Finite c1) (Finite c1) (Finite c2) (Finite c3) (Finite c4) (Finite 0) [Finite c5] =
      Inl OverflowError"
    by (simp del: fadd.simps fmul.simps fdiv.simps fle.simps
        add: alpha_beta_gamma_run_float_def alpha_beta_gamma_init_def
          alpha_beta_gamma_body_float_def Let_def f_1 f_2 f_3)
  define c7 :: real where "c7 = 1"
  define c8 :: real where "c8 = 2 ^ 53"
  define c9 :: real where "c9 = 1"
  have f_4: "fmul (Finite 1) (Finite c7) = Finite c9"
    using to_float_eval [of "1 * c7" "0"]
    by (simp add: c7_def c9_def fsub_def round_half_even_def power_int_minus)
  have f_5: "fle (Finite c9) (Finite 20)"
    by (simp add: c9_def)
  define c10 :: real where "c10 = 1"
  have f_6: "float_square (Finite c7) = Inr (Finite c10)"
    using to_float_eval [of "c7 * c7" "0"]
    by (simp add: float_square_def c7_def c10_def round_half_even_def power_int_minus)
  define c11 :: real where "c11 = 1"
  have f_7: "fmul (Finite c7) (Finite c7) = Finite c11"
    using to_float_eval [of "c7 * c7" "0"]
    by (simp add: c7_def c7_def c11_def fsub_def round_half_even_def power_int_minus)
  define c12 :: real where "c12 = 9007199254740992"
  have f_8: "fadd (Finite c8) (Finite c11) = Finite c12"
    using to_float_eval [of "c8 + c11" "53"]
    by (simp add: c8_def c11_def c12_def fsub_def round_half_even_def power_int_minus)
  have f_9: "fmul (Finite (1 / 2)) (Finite 0) = Finite 0"
    by (simp add:  fsub_def to_float_0)
  have f_10: "fmul (Finite 0) (Finite c10) = Finite 0"
    by (simp add: c10_def fsub_def to_float_0)
  define c13 :: real where "c13 = 9007199254740992"
  have f_11: "fadd (Finite c12) (Finite 0) = Finite c13"
    using to_float_eval [of "c12 + 0" "53"]
    by (simp add: c12_def c13_def fsub_def round_half_even_def power_int_minus)
  have f_12: "fmul (Finite 0) (Finite c7) = Finite 0"
    by (simp add: c7_def fsub_def to_float_0)
  define c14 :: real where "c14 = 1"
  have f_13: "fadd (Finite c7) (Finite 0) = Finite c14"
    using to_float_eval [of "c7 + 0" "0"]
    by (simp add: c7_def c14_def fsub_def round_half_even_def power_int_minus)
  have f_14: "fsub (Finite c8) (Finite c13) = Finite 0"
    by (simp add: c8_def c13_def fsub_def to_float_0)
  have f_15: "fmul (Finite c1) (Finite 0) = Finite 0"
    by (simp add: c1_def fsub_def to_float_0)
  define c15 :: real where "c15 = 9007199254740992"
  have f_16: "fadd (Finite c13) (Finite 0) = Finite c15"
    using to_float_eval [of "c13 + 0" "53"]
    by (simp add: c13_def c15_def fsub_def round_half_even_def power_int_minus)
  have f_17: "fdiv (Finite 0) (Finite c7) = Inr (Finite 0)"
    by (simp add: c7_def fsub_def to_float_0)
  define c16 :: real where "c16 = 1"
  have f_18: "fadd (Finite c14) (Finite 0) = Finite c16"
    using to_float_eval [of "c14 + 0" "0"]
    by (simp add: c14_def c16_def fsub_def round_half_even_def power_int_minus)
  define c17 :: real where "c17 = 1 / 2"
  have f_19: "fmul (Finite (1 / 2)) (Finite c10) = Finite c17"
    using to_float_eval [of "1 / 2 * c10" "-1"]
    by (simp add: c10_def c17_def fsub_def round_half_even_def power_int_minus)
  have f_20: "fdiv (Finite 0) (Finite c17) = Inr (Finite 0)"
    by (simp add: c17_def fsub_def to_float_0)
  have f_21: "fadd (Finite 0) (Finite 0) = Finite 0"
    by (simp add:  fsub_def to_float_0)
  have run_b: "alpha_beta_gamma_run_float float_square (Finite c1) (Finite c1) (Finite c1) (Finite c7) (Finite c8) (Finite c7) (Finite 0) [Finite c8] =
      Inr \<lparr>x_est = Finite c15, vx_est = Finite c16,
          x_estimates = [Finite c15], vx_estimates = [Finite c16],
          x_predictions = [Finite c13], vx_predictions = [Finite c14],
          ax_est = Finite 0, ax_estimates = [Finite 0], ax_predictions = [Finite 0]\<rparr>"
    by (simp del: fadd.simps fmul.simps fdiv.simps fle.simps
        add: alpha_beta_gamma_run_float_def alpha_beta_gamma_init_def
          alpha_beta_gamma_body_float_def Let_def f_1 f_2 f_3 f_4 f_5 f_6 f_7 f_8 f_9 f_10 f_11 f_12 f_13 f_14 f_15 f_16 f_17 f_18 f_19 f_20 f_21)
  have ne: "(2 ^ 53 + 1 * 1 + 0.5 * 0 * 1 ^ 2 :: real) \<noteq> 2 ^ 53"
    by simp
  show ?thesis
    using run_a run_b ne
    unfolding c1_def c2_def c3_def c4_def c5_def c6_def c7_def c8_def c9_def c10_def c11_def c12_def c13_def c14_def c15_def c16_def c17_def
    by blast
qed

text \<open>
  C5, amended.  Whenever the alpha-beta-gamma loop returns, \<^verbatim>\<open>delta_t ** 2\<close> has not
  raised and the prediction recorded at every step is the previous state (the initial
  state at step 1, the previous estimates afterwards) mapped by
  (x, v, a) to (x + delta_t * v + 0.5 * a * delta_t ** 2, v + a * delta_t, a), every
  operation being the float operation, in Python's order.  From the state
  (30000, 50, 0) with delta_t = 5, where \<^verbatim>\<open>5.0 ** 2\<close> is 25.0, the first step returns
  whatever the gains and the measurement, and its prediction is (30250, 50, 0).
\<close>

theorem alpha_beta_gamma_prediction:
  "(alpha_beta_gamma_run_float pow2 alpha beta gamma delta_t x0 vx0 ax0 zs = Inr s \<longrightarrow>
      length (x_predictions s) = length zs
      \<and> length (vx_predictions s) = length zs
      \<and> length (ax_predictions s) = length zs
      \<and> (\<forall>i<length zs.
            \<exists>delta_t_2. pow2 delta_t = Inr delta_t_2
            \<and> x_predictions s ! i =
                fadd (fadd ((x0 # x_estimates s) ! i) (fmul delta_t ((vx0 # vx_estimates s) ! i)))
                  (fmul (fmul (Finite 0.5) ((ax0 # ax_estimates s) ! i)) delta_t_2)
            \<and> vx_predictions s ! i =
                fadd ((vx0 # vx_estimates s) ! i) (fmul ((ax0 # ax_estimates s) ! i) delta_t)
            \<and> ax_predictions s ! i = (ax0 # ax_estimates s) ! i))
   \<and> (pow2 (Finite 5) = Inr (Finite 25) \<longrightarrow>
        (\<exists>s. alpha_beta_gamma_run_float pow2 alpha beta gamma (Finite 5)
                (Finite 30000) (Finite 50) (Finite 0) [z] = Inr s
           \<and> x_predictions s = [Finite 30250] \<and> vx_predictions s = [Finite 50]
           \<and> ax_predictions s = [Finite 0]))"
proof (intro conjI impI)
  assume run: "alpha_beta_gamma_run_float pow2 alpha beta gamma delta_t x0 vx0 ax0 zs = Inr s"
  then have "for_enumerate (alpha_beta_gamma_body_float pow2 alpha beta gamma delta_t) 1 zs
               (alpha_beta_gamma_init x0 vx0 ax0) = Inr s"
    by (simp add: alpha_beta_gamma_run_float_def)
  from alpha_beta_gamma_float_loop [OF this]
  show "length (x_predictions s) = length zs"
    "length (vx_predictions s) = length zs"
    "length (ax_predictions s) = length zs"
    "\<forall>i<length zs.
            \<exists>delta_t_2. pow2 delta_t = Inr delta_t_2
            \<and> x_predictions s ! i =
                fadd (fadd ((x0 # x_estimates s) ! i) (fmul delta_t ((vx0 # vx_estimates s) ! i)))
                  (fmul (fmul (Finite 0.5) ((ax0 # ax_estimates s) ! i)) delta_t_2)
            \<and> vx_predictions s ! i =
                fadd ((vx0 # vx_estimates s) ! i) (fmul ((ax0 # ax_estimates s) ! i) delta_t)
            \<and> ax_predictions s ! i = (ax0 # ax_estimates s) ! i"
    by (auto simp: alpha_beta_gamma_init_def)
next
  assume "pow2 (Finite 5) = Inr (Finite 25)"
  then show "\<exists>s. alpha_beta_gamma_run_float pow2 alpha beta gamma (Finite 5)
                (Finite 30000) (Finite 50) (Finite 0) [z] = Inr s
           \<and> x_predictions s = [Finite 30250] \<and> vx_predictions s = [Finite 50]
           \<and> ax_predictions s = [Finite 0]"
    by (rule alpha_beta_gamma_first_prediction)
qed

text \<open>
  The state and the first measurement of the script, with the correctly rounded square
  and gains 1/2, 1/4, 1/8.
\<close>

theorem alpha_beta_gamma_prediction_witness:
  "float_square (Finite 5) = Inr (Finite 25)
   \<and> (\<exists>s. alpha_beta_gamma_run_float float_square (Finite (1 / 2)) (Finite (1 / 4))
              (Finite (1 / 8)) (Finite 5) (Finite 30000) (Finite 50) (Finite 0) [Finite 30221]
              = Inr s
          \<and> x_predictions s = [Finite 30250] \<and> vx_predictions s = [Finite 50]
          \<and> ax_predictions s = [Finite 0]
          \<and> (\<exists>delta_t_2. float_square (Finite 5) = Inr delta_t_2
                \<and> x_predictions s ! 0 =
                    fadd (fadd (Finite 30000) (fmul (Finite 5) (Finite 50)))
                      (fmul (fmul (Finite 0.5) (Finite 0)) delta_t_2)))"
proof -
  have sq: "float_square (Finite 5) = Inr (Finite 25)"
    using to_float_eval [of "5 * 5" 4]
    by (simp add: float_square_def round_half_even_def power_int_minus)
  from alpha_beta_gamma_prediction
    [of float_square "Finite (1 / 2)" "Finite (1 / 4)" "Finite (1 / 8)" _ _ _ _ _ _
       "Finite 30221"] sq
  obtain s where
    s: "alpha_beta_gamma_run_float float_square (Finite (1 / 2)) (Finite (1 / 4))
          (Finite (1 / 8)) (Finite 5) (Finite 30000) (Finite 50) (Finite 0) [Finite 30221] = Inr s"
    and p: "x_predictions s = [Finite 30250]" "vx_predictions s = [Finite 50]"
      "ax_predictions s = [Finite 0]"
    by blast
  from alpha_beta_gamma_prediction
    [of float_square "Finite (1 / 2)" "Finite (1 / 4)" "Finite (1 / 8)" "Finite 5"
       "Finite 30000" "Finite 50" "Finite 0" "[Finite 30221]" s "Finite 30221"] s
  have "\<forall>i<length [Finite 30221 :: pyfloat].
            \<exists>delta_t_2. float_square (Finite 5) = Inr delta_t_2
            \<and> x_predictions s ! i =
                fadd (fadd ((Finite 30000 # x_estimates s) ! i)
                        (fmul (Finite 5) ((Finite 50 # vx_estimates s) ! i)))
                  (fmul (fmul (Finite 0.5) ((Finite 0 # ax_estimates s) ! i)) delta_t_2)
            \<and> vx_predictions s ! i =
                fadd ((Finite 50 # vx_estimates s) ! i)
                  (fmul ((Finite 0 # ax_estimates s) ! i) (Finite 5))
            \<and> ax_predictions s ! i = (Finite 0 # ax_estimates s) ! i"
    by blast
  then have "\<exists>delta_t_2. float_square (Finite 5) = Inr delta_t_2
                \<and> x_predictions s ! 0 =
                    fadd (fadd (Finite 30000) (fmul (Finite 5) (Finite 50)))
                      (fmul (fmul (Finite 0.5) (Finite 0)) delta_t_2)"
    by (drule_tac x = 0 in spec) (auto simp del: fadd.simps fmul.simps)
  with sq s p show ?thesis by blast
qed

text \<open>
  With delta_t = 0.0 and at least one measurement the float loop raises
  \<^verbatim>\<open>ZeroDivisionError\<close> at the first step, as the loop in exact arithmetic does:
  \<^verbatim>\<open>0.0 ** 2\<close> is 0.0 and does not raise, and the division of the residual by delta_t
  raises whatever the residual is.
\<close>

lemma zero_delta_t_float:
  "alpha_beta_gamma_run_float float_square alpha beta gamma (Finite 0) x0 vx0 ax0 (z # zs) =
     Inl ZeroDivisionError"
  by (simp add: alpha_beta_gamma_run_float_def alpha_beta_gamma_body_float_def Let_def
      float_square_def to_float_0)

section \<open>Ch-4 and Ch-5 on floats: variance and gain of the Kalman filter\<close>

lemma kalman_float_update:
  assumes r: "is_float r" "0 < r" and pp: "is_float pp" "0 \<le> pp"
  shows "\<exists>k v. fdiv (Finite pp) (fadd (Finite pp) (Finite r)) = Inr (Finite k)
           \<and> 0 \<le> k \<and> k \<le> 1
           \<and> fmul (fsub (Finite 1) (Finite k)) (Finite pp) = Finite v
           \<and> 0 \<le> v \<and> v \<le> pp \<and> is_float v"
proof -
  have gain: "\<exists>k. fdiv (Finite pp) (fadd (Finite pp) (Finite r)) = Inr (Finite k)
           \<and> 0 \<le> k \<and> k \<le> 1 \<and> is_float k"
  proof -
    have "pp \<le> pp + r" using r(2) by simp
    from to_float_ge [OF pp(1) this] show ?thesis
    proof
      assume "to_float (pp + r) = PInf"
      then show ?thesis by (simp add: is_float_0)
    next
      assume "\<exists>d. to_float (pp + r) = Finite d \<and> pp \<le> d \<and> is_float d"
      then obtain d where d: "to_float (pp + r) = Finite d" "pp \<le> d" by blast
      have "r \<le> pp + r" using pp(2) by simp
      from to_float_ge [OF r(1) this] d(1) have "r \<le> d" by simp
      with r(2) have d0: "0 < d" by simp
      have "0 \<le> pp / d" "pp / d \<le> 1"
        using pp(2) d(2) d0 by simp_all
      from to_float_between [OF is_float_0 is_float_1 this] d(1) d0 show ?thesis
        by auto
    qed
  qed
  then obtain k where k: "fdiv (Finite pp) (fadd (Finite pp) (Finite r)) = Inr (Finite k)"
    "0 \<le> k" "k \<le> 1" by blast
  have "0 \<le> 1 + - k" "1 + - k \<le> 1" using k(2,3) by simp_all
  from to_float_between [OF is_float_0 is_float_1 this] obtain m where
    m: "to_float (1 + - k) = Finite m" "0 \<le> m" "m \<le> 1" by blast
  have "0 \<le> m * pp" "m * pp \<le> pp"
    using m(2,3) pp(2) by (simp_all add: mult_left_le_one_le)
  from to_float_between [OF is_float_0 pp(1) this] obtain v where
    v: "to_float (m * pp) = Finite v" "0 \<le> v" "v \<le> pp" "is_float v" by blast
  have "fmul (fsub (Finite 1) (Finite k)) (Finite pp) = Finite v"
    using m(1) v(1) by (simp add: fsub_def)
  with k v show ?thesis by blast
qed

lemma kalman_float_step:
  assumes r: "is_float r" "0 < r" and q: "0 \<le> q"
    and inv: "(\<exists>p. prev = Finite p \<and> 0 \<le> p \<and> is_float p) \<or> prev = NaN"
  shows "\<exists>K v. fdiv (fadd prev (Finite q)) (fadd (fadd prev (Finite q)) (Finite r)) = Inr K
           \<and> v = fmul (fsub (Finite 1) K) (fadd prev (Finite q))
           \<and> ((\<exists>p. v = Finite p \<and> 0 \<le> p \<and> is_float p) \<or> v = NaN)
           \<and> (case fadd prev (Finite q) of
                 Finite p_pred \<Rightarrow>
                   0 \<le> p_pred
                   \<and> (\<exists>k p. K = Finite k \<and> 0 \<le> k \<and> k \<le> 1
                          \<and> v = Finite p \<and> 0 \<le> p \<and> p \<le> p_pred)
               | _ \<Rightarrow> K = NaN \<and> v = NaN)"
  using inv
proof
  assume "prev = NaN"
  then show ?thesis by (simp add: fsub_def)
next
  assume "\<exists>p. prev = Finite p \<and> 0 \<le> p \<and> is_float p"
  then obtain p where p: "prev = Finite p" "0 \<le> p" by blast
  have "0 \<le> p + q" using p(2) q by simp
  from to_float_ge [OF is_float_0 this] show ?thesis
  proof
    assume "to_float (p + q) = PInf"
    then show ?thesis using p(1) by (simp add: fsub_def)
  next
    assume "\<exists>y. to_float (p + q) = Finite y \<and> 0 \<le> y \<and> is_float y"
    then obtain pp where pp: "to_float (p + q) = Finite pp" "0 \<le> pp" "is_float pp" by blast
    from kalman_float_update [OF r pp(3,2)] show ?thesis
      using p(1) pp(1,2) by auto
  qed
qed

lemma kalman_body_float_step:
  assumes "fdiv (fadd (p_est s) q) (fadd (fadd (p_est s) q) r) = Inr K"
  shows "kalman_body_float q r n z s =
     Inr \<lparr>x_est = fadd (x_est s) (fmul K (fsub z (x_est s))),
          estimates = estimates s @ [fadd (x_est s) (fmul K (fsub z (x_est s)))],
          predictions = predictions s @ [x_est s],
          p_est = fmul (fsub (Finite 1) K) (fadd (p_est s) q),
          variances = variances s @ [fmul (fsub (Finite 1) K) (fadd (p_est s) q)],
          kalman_gains = kalman_gains s @ [K]\<rparr>"
  using assms by (simp add: kalman_body_float_def Let_def)

lemma kalman_static_body_float_step:
  assumes "fdiv (p_est s) (fadd (p_est s) r) = Inr K"
  shows "kalman_static_body_float r n z s =
     Inr \<lparr>x_est = fadd (x_est s) (fmul K (fsub z (x_est s))),
          estimates = estimates s @ [fadd (x_est s) (fmul K (fsub z (x_est s)))],
          predictions = predictions s @ [x_est s],
          p_est = fmul (fsub (Finite 1) K) (p_est s),
          variances = variances s @ [fmul (fsub (Finite 1) K) (p_est s)],
          kalman_gains = kalman_gains s @ [K]\<rparr>"
  using assms by (simp add: kalman_static_body_float_def Let_def)

lemma kalman_float_loop:
  assumes r: "is_float r" "0 < r" and q: "0 \<le> q"
    and inv: "(\<exists>p. p_est s = Finite p \<and> 0 \<le> p \<and> is_float p) \<or> p_est s = NaN"
  shows "\<exists>s' vs ks.
           for_enumerate (kalman_body_float (Finite q) (Finite r)) n zs s = Inr s'
           \<and> variances s' = variances s @ vs
           \<and> kalman_gains s' = kalman_gains s @ ks
           \<and> length vs = length zs \<and> length ks = length zs
           \<and> (\<forall>i<length zs.
                 fdiv (fadd ((p_est s # vs) ! i) (Finite q))
                   (fadd (fadd ((p_est s # vs) ! i) (Finite q)) (Finite r)) = Inr (ks ! i)
                 \<and> (case fadd ((p_est s # vs) ! i) (Finite q) of
                       Finite p_pred \<Rightarrow>
                         0 \<le> p_pred
                         \<and> (\<exists>k p. ks ! i = Finite k \<and> 0 \<le> k \<and> k \<le> 1
                                \<and> vs ! i = Finite p \<and> 0 \<le> p \<and> p \<le> p_pred)
                     | _ \<Rightarrow> ks ! i = NaN \<and> vs ! i = NaN))"
  using inv
proof (induction zs arbitrary: n s)
  case Nil
  then show ?case by simp
next
  case (Cons z zs)
  from kalman_float_step [OF r q Cons.prems] obtain K v where
    K: "fdiv (fadd (p_est s) (Finite q)) (fadd (fadd (p_est s) (Finite q)) (Finite r)) = Inr K"
    and v: "v = fmul (fsub (Finite 1) K) (fadd (p_est s) (Finite q))"
    and inv': "(\<exists>p. v = Finite p \<and> 0 \<le> p \<and> is_float p) \<or> v = NaN"
    and b: "case fadd (p_est s) (Finite q) of
                 Finite p_pred \<Rightarrow>
                   0 \<le> p_pred
                   \<and> (\<exists>k p. K = Finite k \<and> 0 \<le> k \<and> k \<le> 1
                          \<and> v = Finite p \<and> 0 \<le> p \<and> p \<le> p_pred)
               | _ \<Rightarrow> K = NaN \<and> v = NaN"
    by blast
  define s1 where "s1 = \<lparr>x_est = fadd (x_est s) (fmul K (fsub z (x_est s))),
          estimates = estimates s @ [fadd (x_est s) (fmul K (fsub z (x_est s)))],
          predictions = predictions s @ [x_est s],
          p_est = v, variances = variances s @ [v], kalman_gains = kalman_gains s @ [K]\<rparr>"
  have step: "kalman_body_float (Finite q) (Finite r) n z s = Inr s1"
    using kalman_body_float_step [OF K, of n z] by (simp add: s1_def v)
  have "(\<exists>p. p_est s1 = Finite p \<and> 0 \<le> p \<and> is_float p) \<or> p_est s1 = NaN"
    using inv' by (simp add: s1_def)
  from Cons.IH [OF this, of "Suc n"] obtain s' vs ks where
    run: "for_enumerate (kalman_body_float (Finite q) (Finite r)) (Suc n) zs s1 = Inr s'"
    and vs: "variances s' = variances s1 @ vs"
    and ks: "kalman_gains s' = kalman_gains s1 @ ks"
    and len: "length vs = length zs" "length ks = length zs"
    and all: "\<And>i. i < length zs \<Longrightarrow>
                 fdiv (fadd ((p_est s1 # vs) ! i) (Finite q))
                   (fadd (fadd ((p_est s1 # vs) ! i) (Finite q)) (Finite r)) = Inr (ks ! i)
                 \<and> (case fadd ((p_est s1 # vs) ! i) (Finite q) of
                       Finite p_pred \<Rightarrow>
                         0 \<le> p_pred
                         \<and> (\<exists>k p. ks ! i = Finite k \<and> 0 \<le> k \<and> k \<le> 1
                                \<and> vs ! i = Finite p \<and> 0 \<le> p \<and> p \<le> p_pred)
                     | _ \<Rightarrow> ks ! i = NaN \<and> vs ! i = NaN)"
    by blast
  have nth: "fdiv (fadd ((p_est s # v # vs) ! i) (Finite q))
                   (fadd (fadd ((p_est s # v # vs) ! i) (Finite q)) (Finite r)) = Inr ((K # ks) ! i)
                 \<and> (case fadd ((p_est s # v # vs) ! i) (Finite q) of
                       Finite p_pred \<Rightarrow>
                         0 \<le> p_pred
                         \<and> (\<exists>k p. (K # ks) ! i = Finite k \<and> 0 \<le> k \<and> k \<le> 1
                                \<and> (v # vs) ! i = Finite p \<and> 0 \<le> p \<and> p \<le> p_pred)
                     | _ \<Rightarrow> (K # ks) ! i = NaN \<and> (v # vs) ! i = NaN)"
    if "i < length (z # zs)" for i
  proof (cases i)
    case 0
    then show ?thesis using K b by (auto split: pyfloat.splits)
  next
    case (Suc j)
    then have "j < length zs" using that by simp
    from all [OF this] show ?thesis using Suc by (auto simp: s1_def split: pyfloat.splits)
  qed
  have "for_enumerate (kalman_body_float (Finite q) (Finite r)) n (z # zs) s = Inr s'"
    using step run by simp
  moreover have "variances s' = variances s @ (v # vs)"
    using vs by (simp add: s1_def)
  moreover have "kalman_gains s' = kalman_gains s @ (K # ks)"
    using ks by (simp add: s1_def)
  moreover have "length (v # vs) = length (z # zs)" "length (K # ks) = length (z # zs)"
    using len by simp_all
  ultimately show ?case using nth by blast
qed

lemma kalman_static_float_loop:
  assumes r: "is_float r" "0 < r"
    and inv: "\<exists>p. p_est s = Finite p \<and> 0 \<le> p \<and> is_float p"
  shows "\<exists>s' vs ks.
           for_enumerate (kalman_static_body_float (Finite r)) n zs s = Inr s'
           \<and> variances s' = variances s @ vs
           \<and> kalman_gains s' = kalman_gains s @ ks
           \<and> length vs = length zs \<and> length ks = length zs
           \<and> (\<forall>i<length zs.
                 \<exists>p_pred k p.
                   (p_est s # vs) ! i = Finite p_pred \<and> ks ! i = Finite k \<and> vs ! i = Finite p
                   \<and> fdiv (Finite p_pred) (fadd (Finite p_pred) (Finite r)) = Inr (Finite k)
                   \<and> 0 \<le> p_pred \<and> 0 \<le> k \<and> k \<le> 1 \<and> 0 \<le> p \<and> p \<le> p_pred)"
  using inv
proof (induction zs arbitrary: n s)
  case Nil
  then show ?case by simp
next
  case (Cons z zs)
  from Cons.prems obtain pp where pp: "p_est s = Finite pp" "0 \<le> pp" "is_float pp" by blast
  from kalman_float_update [OF r pp(3,2)] obtain k v where
    k: "fdiv (Finite pp) (fadd (Finite pp) (Finite r)) = Inr (Finite k)" "0 \<le> k" "k \<le> 1"
    and v: "fmul (fsub (Finite 1) (Finite k)) (Finite pp) = Finite v" "0 \<le> v" "v \<le> pp"
      "is_float v"
    by blast
  define s1 where "s1 = \<lparr>x_est = fadd (x_est s) (fmul (Finite k) (fsub z (x_est s))),
          estimates = estimates s @ [fadd (x_est s) (fmul (Finite k) (fsub z (x_est s)))],
          predictions = predictions s @ [x_est s],
          p_est = Finite v, variances = variances s @ [Finite v],
          kalman_gains = kalman_gains s @ [Finite k]\<rparr>"
  have step: "kalman_static_body_float (Finite r) n z s = Inr s1"
    using kalman_static_body_float_step [of s "Finite r" "Finite k" n z] k(1) v(1)
    by (simp add: s1_def pp(1))
  have "\<exists>p. p_est s1 = Finite p \<and> 0 \<le> p \<and> is_float p"
    using v by (simp add: s1_def)
  from Cons.IH [OF this, of "Suc n"] obtain s' vs ks where
    run: "for_enumerate (kalman_static_body_float (Finite r)) (Suc n) zs s1 = Inr s'"
    and vs: "variances s' = variances s1 @ vs"
    and ks: "kalman_gains s' = kalman_gains s1 @ ks"
    and len: "length vs = length zs" "length ks = length zs"
    and all: "\<And>i. i < length zs \<Longrightarrow>
                 \<exists>p_pred k p.
                   (p_est s1 # vs) ! i = Finite p_pred \<and> ks ! i = Finite k \<and> vs ! i = Finite p
                   \<and> fdiv (Finite p_pred) (fadd (Finite p_pred) (Finite r)) = Inr (Finite k)
                   \<and> 0 \<le> p_pred \<and> 0 \<le> k \<and> k \<le> 1 \<and> 0 \<le> p \<and> p \<le> p_pred"
    by blast
  have nth: "\<exists>p_pred k' p.
                   (p_est s # Finite v # vs) ! i = Finite p_pred
                   \<and> (Finite k # ks) ! i = Finite k' \<and> (Finite v # vs) ! i = Finite p
                   \<and> fdiv (Finite p_pred) (fadd (Finite p_pred) (Finite r)) = Inr (Finite k')
                   \<and> 0 \<le> p_pred \<and> 0 \<le> k' \<and> k' \<le> 1 \<and> 0 \<le> p \<and> p \<le> p_pred"
    if "i < length (z # zs)" for i
  proof (cases i)
    case 0
    then show ?thesis using pp k v by simp
  next
    case (Suc j)
    then have "j < length zs" using that by simp
    from all [OF this] show ?thesis using Suc by (simp add: s1_def)
  qed
  have "for_enumerate (kalman_static_body_float (Finite r)) n (z # zs) s = Inr s'"
    using step run by simp
  moreover have "variances s' = variances s @ (Finite v # vs)"
    using vs by (simp add: s1_def)
  moreover have "kalman_gains s' = kalman_gains s @ (Finite k # ks)"
    using ks by (simp add: s1_def)
  moreover have "length (Finite v # vs) = length (z # zs)"
    "length (Finite k # ks) = length (z # zs)"
    using len by simp_all
  ultimately show ?case using nth by blast
qed

text \<open>
  C3, as stated, fails on Python floats.  With q = p0 = 2^1023 and r = 1, which meet
  q >= 0, r > 0 and p0 >= 0, the predicted variance p_est + q overflows to infinity,
  the gain inf / inf is NaN and the updated variance is NaN: it is not >= 0 and not at
  most the predicted variance.
\<close>

theorem kalman_variance_bounds_counterexample:
  "is_float (2 ^ 1023)
   \<and> (0::real) \<le> 2 ^ 1023
   \<and> is_float 1
   \<and> (0::real) < 1
   \<and> is_float (2 ^ 1023)
   \<and> (0::real) \<le> 2 ^ 1023
   \<and> kalman_run_float (Finite (2 ^ 1023)) (Finite 1) (Finite 60) (Finite (2 ^ 1023)) [Finite 50] =
       Inr \<lparr>x_est = NaN, estimates = [NaN],
          predictions = [Finite 60],
          p_est = NaN,
          variances = [NaN],
          kalman_gains = [NaN]\<rparr>"
proof -
  define c1 :: real where "c1 = 2 ^ 1023"
  define c2 :: real where "c2 = 1"
  define c3 :: real where "c3 = 60"
  define c4 :: real where "c4 = 2 ^ 1023"
  define c5 :: real where "c5 = 50"
  have f_1: "fadd (Finite c4) (Finite c1) = PInf"
    using to_float_eval [of "c4 + c1" "1024"]
    by (simp add: c4_def c1_def fsub_def round_half_even_def power_int_minus)
  have f_2: "fadd PInf (Finite c2) = PInf"
    by (simp add: c2_def fsub_def to_float_0)
  have f_3: "fdiv PInf PInf = Inr NaN"
    by (simp add:  fsub_def to_float_0)
  define c6 :: real where "c6 = - (10)"
  have f_4: "fsub (Finite c5) (Finite c3) = Finite c6"
    using to_float_eval [of "c5 - c3" "3"]
    by (simp add: c5_def c3_def c6_def fsub_def round_half_even_def power_int_minus)
  have f_5: "fmul NaN (Finite c6) = NaN"
    by (simp add: c6_def fsub_def to_float_0)
  have f_6: "fadd (Finite c3) NaN = NaN"
    by (simp add: c3_def fsub_def to_float_0)
  have f_7: "fsub (Finite 1) NaN = NaN"
    by (simp add:  fsub_def to_float_0)
  have f_8: "fmul NaN PInf = NaN"
    by (simp add:  fsub_def to_float_0)
  have fl_c1: "is_float c1"
    using to_float_eval [of c1 "1023"]
    by (simp add: is_float_def c1_def round_half_even_def power_int_minus)
  have pos_c1: "0 \<le> c1"
    by (simp add: c1_def)
  have fl_c2: "is_float c2"
    using to_float_eval [of c2 "0"]
    by (simp add: is_float_def c2_def round_half_even_def power_int_minus)
  have pos_c2: "0 < c2"
    by (simp add: c2_def)
  have fl_c4: "is_float c4"
    using to_float_eval [of c4 "1023"]
    by (simp add: is_float_def c4_def round_half_even_def power_int_minus)
  have pos_c4: "0 \<le> c4"
    by (simp add: c4_def)
  have run: "kalman_run_float (Finite c1) (Finite c2) (Finite c3) (Finite c4) [Finite c5] =
      Inr \<lparr>x_est = NaN, estimates = [NaN],
          predictions = [Finite c3],
          p_est = NaN,
          variances = [NaN],
          kalman_gains = [NaN]\<rparr>"
    by (simp del: fadd.simps fmul.simps fdiv.simps
        add: kalman_run_float_def kalman_init_def kalman_body_float_def Let_def f_1 f_2 f_3 f_4 f_5 f_6 f_7 f_8)
  show ?thesis
    using fl_c1 pos_c1 fl_c2 pos_c2 fl_c4 pos_c4 run
    unfolding c1_def c2_def c3_def c4_def c5_def c6_def
    by blast
qed

text \<open>
  C3, amended.  With floats q >= 0, r > 0 and p0 >= 0 the Kalman loop never raises.
  With process noise (Ch-5), at every step whose predicted variance p_est + q is finite
  that variance is >= 0 and the updated variance is a finite p with 0 <= p <= p_pred,
  that is at most the float sum of the previous updated variance and q; at a step whose
  predicted variance has overflowed to infinity or is NaN the updated variance is NaN.
  Without process noise (Ch-4) nothing overflows: at every step the predicted variance
  is the previous updated variance and 0 <= p <= p_pred.
\<close>

theorem kalman_variance_bounds:
  assumes "is_float q" "0 \<le> q" "is_float r" "0 < r" "is_float p0" "0 \<le> p0"
  shows "(\<exists>s. kalman_run_float (Finite q) (Finite r) x0 (Finite p0) zs = Inr s
            \<and> length (variances s) = length zs
            \<and> (\<forall>i<length zs.
                  case fadd ((Finite p0 # variances s) ! i) (Finite q) of
                    Finite p_pred \<Rightarrow>
                      0 \<le> p_pred
                      \<and> (\<exists>p. variances s ! i = Finite p \<and> 0 \<le> p \<and> p \<le> p_pred)
                  | _ \<Rightarrow> variances s ! i = NaN))
       \<and> (\<exists>s. kalman_static_run_float (Finite r) x0 (Finite p0) zs = Inr s
            \<and> length (variances s) = length zs
            \<and> (\<forall>i<length zs.
                  \<exists>p_pred p. (Finite p0 # variances s) ! i = Finite p_pred
                    \<and> variances s ! i = Finite p
                    \<and> 0 \<le> p_pred \<and> 0 \<le> p \<and> p \<le> p_pred))"
proof
  have inv: "(\<exists>p. p_est (kalman_init x0 (Finite p0)) = Finite p \<and> 0 \<le> p \<and> is_float p)
      \<or> p_est (kalman_init x0 (Finite p0)) = NaN"
    using assms(5,6) by (simp add: kalman_init_def)
  from kalman_float_loop [OF assms(3,4,2) inv, of 1 zs] obtain s vs ks where
    run: "kalman_run_float (Finite q) (Finite r) x0 (Finite p0) zs = Inr s"
    and vs: "variances s = vs" "length vs = length zs"
    and all: "\<And>i. i < length zs \<Longrightarrow>
                 (case fadd ((Finite p0 # vs) ! i) (Finite q) of
                       Finite p_pred \<Rightarrow>
                         0 \<le> p_pred
                         \<and> (\<exists>k p. ks ! i = Finite k \<and> 0 \<le> k \<and> k \<le> 1
                                \<and> vs ! i = Finite p \<and> 0 \<le> p \<and> p \<le> p_pred)
                     | _ \<Rightarrow> ks ! i = NaN \<and> vs ! i = NaN)"
    by (auto simp: kalman_run_float_def kalman_init_def)
  have "case fadd ((Finite p0 # variances s) ! i) (Finite q) of
                    Finite p_pred \<Rightarrow>
                      0 \<le> p_pred
                      \<and> (\<exists>p. variances s ! i = Finite p \<and> 0 \<le> p \<and> p \<le> p_pred)
                  | _ \<Rightarrow> variances s ! i = NaN" if "i < length zs" for i
    using all [OF that] by (auto simp: vs(1) split: pyfloat.splits)
  with run vs show "\<exists>s. kalman_run_float (Finite q) (Finite r) x0 (Finite p0) zs = Inr s
            \<and> length (variances s) = length zs
            \<and> (\<forall>i<length zs.
                  case fadd ((Finite p0 # variances s) ! i) (Finite q) of
                    Finite p_pred \<Rightarrow>
                      0 \<le> p_pred
                      \<and> (\<exists>p. variances s ! i = Finite p \<and> 0 \<le> p \<and> p \<le> p_pred)
                  | _ \<Rightarrow> variances s ! i = NaN)"
    by auto
next
  have inv: "\<exists>p. p_est (kalman_init x0 (Finite p0)) = Finite p \<and> 0 \<le> p \<and> is_float p"
    using assms(5,6) by (simp add: kalman_init_def)
  from kalman_static_float_loop [OF assms(3,4) inv, of 1 zs] obtain s vs ks where
    run: "kalman_static_run_float (Finite r) x0 (Finite p0) zs = Inr s"
    and vs: "variances s = vs" "length vs = length zs"
    and all: "\<And>i. i < length zs \<Longrightarrow>
                 \<exists>p_pred k p.
                   (Finite p0 # vs) ! i = Finite p_pred \<and> ks ! i = Finite k \<and> vs ! i = Finite p
                   \<and> fdiv (Finite p_pred) (fadd (Finite p_pred) (Finite r)) = Inr (Finite k)
                   \<and> 0 \<le> p_pred \<and> 0 \<le> k \<and> k \<le> 1 \<and> 0 \<le> p \<and> p \<le> p_pred"
    by (auto simp: kalman_static_run_float_def kalman_init_def)
  have "\<exists>p_pred p. (Finite p0 # variances s) ! i = Finite p_pred
                    \<and> variances s ! i = Finite p
                    \<and> 0 \<le> p_pred \<and> 0 \<le> p \<and> p \<le> p_pred" if "i < length zs" for i
    using all [OF that] vs(1) by blast
  with run vs show "\<exists>s. kalman_static_run_float (Finite r) x0 (Finite p0) zs = Inr s
            \<and> length (variances s) = length zs
            \<and> (\<forall>i<length zs.
                  \<exists>p_pred p. (Finite p0 # variances s) ! i = Finite p_pred
                    \<and> variances s ! i = Finite p
                    \<and> 0 \<le> p_pred \<and> 0 \<le> p \<and> p \<le> p_pred)"
    by auto
qed

text \<open>
  An instance: q = 2^-13, r = 2^-7, initial estimate 10 with variance 10000, one
  measurement.
\<close>

theorem kalman_variance_bounds_witness:
  "is_float (1 / 8192) \<and> (0::real) \<le> 1 / 8192
   \<and> is_float (1 / 128) \<and> (0::real) < 1 / 128
   \<and> is_float 10000 \<and> (0::real) \<le> 10000
   \<and> (\<exists>s. kalman_run_float (Finite (1 / 8192)) (Finite (1 / 128)) (Finite 10) (Finite 10000)
              [Finite 50] = Inr s
          \<and> (\<exists>p. variances s ! 0 = Finite p \<and> 0 \<le> p \<and> p \<le> 10000 + 1 / 8192))
   \<and> (\<exists>s. kalman_static_run_float (Finite (1 / 128)) (Finite 10) (Finite 10000)
              [Finite 50] = Inr s
          \<and> (\<exists>p. variances s ! 0 = Finite p \<and> 0 \<le> p \<and> p \<le> 10000))"
proof -
  define q :: real where "q = 1 / 8192"
  define r :: real where "r = 1 / 128"
  define p0 :: real where "p0 = 10000"
  have q: "is_float q" "0 \<le> q"
    using to_float_eval [of q "- 13"]
    by (simp_all add: is_float_def q_def round_half_even_def power_int_minus)
  have r: "is_float r" "0 < r"
    using to_float_eval [of r "- 7"]
    by (simp_all add: is_float_def r_def round_half_even_def power_int_minus)
  have p0: "is_float p0" "0 \<le> p0"
    using to_float_eval [of p0 13]
    by (simp_all add: is_float_def p0_def round_half_even_def power_int_minus)
  have sum: "fadd (Finite p0) (Finite q) = Finite (p0 + q)"
    using to_float_eval [of "p0 + q" 13]
    by (simp add: p0_def q_def round_half_even_def power_int_minus)
  from kalman_variance_bounds [OF q r p0, of "Finite 10" "[Finite 50]"] obtain s t where
    s: "kalman_run_float (Finite q) (Finite r) (Finite 10) (Finite p0) [Finite 50] = Inr s"
    and sv: "\<forall>i<length [Finite 50 :: pyfloat].
               case fadd ((Finite p0 # variances s) ! i) (Finite q) of
                 Finite p_pred \<Rightarrow>
                   0 \<le> p_pred
                   \<and> (\<exists>p. variances s ! i = Finite p \<and> 0 \<le> p \<and> p \<le> p_pred)
               | _ \<Rightarrow> variances s ! i = NaN"
    and t: "kalman_static_run_float (Finite r) (Finite 10) (Finite p0) [Finite 50] = Inr t"
    and tv: "\<forall>i<length [Finite 50 :: pyfloat].
               \<exists>p_pred p. (Finite p0 # variances t) ! i = Finite p_pred
                 \<and> variances t ! i = Finite p
                 \<and> 0 \<le> p_pred \<and> 0 \<le> p \<and> p \<le> p_pred"
    by blast
  from sv have "case fadd (Finite p0) (Finite q) of
                 Finite p_pred \<Rightarrow>
                   0 \<le> p_pred
                   \<and> (\<exists>p. variances s ! 0 = Finite p \<and> 0 \<le> p \<and> p \<le> p_pred)
               | _ \<Rightarrow> variances s ! 0 = NaN"
    by (drule_tac x = 0 in spec) (simp del: fadd.simps)
  then have a: "\<exists>p. variances s ! 0 = Finite p \<and> 0 \<le> p \<and> p \<le> p0 + q"
    by (simp del: fadd.simps add: sum)
  from tv have b: "\<exists>p. variances t ! 0 = Finite p \<and> 0 \<le> p \<and> p \<le> p0"
    by (drule_tac x = 0 in spec) auto
  show ?thesis
    using q r p0 s t a b unfolding q_def r_def p0_def by blast
qed

text \<open>
  C4, as stated, fails on Python floats.  With q = 3 * 2^1022, r = 2^1023 and p0 = 0,
  which meet q >= 0, r > 0 and p0 >= 0, the sum p_pred + r of the first step overflows
  and the first gain is 0.0; at the second step p_pred itself overflows and the gain
  inf / inf is NaN, which is not in [0, 1].
\<close>

theorem kalman_gain_bounds_counterexample:
  "is_float (3 * 2 ^ 1022)
   \<and> (0::real) \<le> 3 * 2 ^ 1022
   \<and> is_float (2 ^ 1023)
   \<and> (0::real) < 2 ^ 1023
   \<and> is_float 0
   \<and> (0::real) \<le> 0
   \<and> kalman_run_float (Finite (3 * 2 ^ 1022)) (Finite (2 ^ 1023)) (Finite 60) (Finite 0) [Finite 50, Finite 50] =
       Inr \<lparr>x_est = NaN, estimates = [Finite 60, NaN],
          predictions = [Finite 60, Finite 60],
          p_est = NaN,
          variances = [Finite 134826985114673693079697889309176855021348273420672992955072560868299506854125722349531357991805652015840085409903545018244092326610812466869635572979605593283325920068649113957226664700934570589589812214063754326628613011756847161105434832905620427872512883013439723679960434453859787228626517247218168102912, NaN],
          kalman_gains = [Finite 0, NaN]\<rparr>"
proof -
  define c1 :: real where "c1 = 3 * 2 ^ 1022"
  define c2 :: real where "c2 = 2 ^ 1023"
  define c3 :: real where "c3 = 60"
  define c4 :: real where "c4 = 0"
  define c5 :: real where "c5 = 50"
  define c6 :: real where "c6 = 50"
  define c7 :: real where "c7 = 134826985114673693079697889309176855021348273420672992955072560868299506854125722349531357991805652015840085409903545018244092326610812466869635572979605593283325920068649113957226664700934570589589812214063754326628613011756847161105434832905620427872512883013439723679960434453859787228626517247218168102912"
  have f_1: "fadd (Finite c4) (Finite c1) = Finite c7"
    using to_float_eval [of "c4 + c1" "1023"]
    by (simp add: c4_def c1_def c7_def fsub_def round_half_even_def power_int_minus)
  have f_2: "fadd (Finite c7) (Finite c2) = PInf"
    using to_float_eval [of "c7 + c2" "1024"]
    by (simp add: c7_def c2_def fsub_def round_half_even_def power_int_minus)
  have f_3: "fdiv (Finite c7) PInf = Inr (Finite 0)"
    by (simp add: c7_def fsub_def to_float_0)
  define c8 :: real where "c8 = - (10)"
  have f_4: "fsub (Finite c5) (Finite c3) = Finite c8"
    using to_float_eval [of "c5 - c3" "3"]
    by (simp add: c5_def c3_def c8_def fsub_def round_half_even_def power_int_minus)
  have f_5: "fmul (Finite 0) (Finite c8) = Finite 0"
    by (simp add: c8_def fsub_def to_float_0)
  define c9 :: real where "c9 = 60"
  have f_6: "fadd (Finite c3) (Finite 0) = Finite c9"
    using to_float_eval [of "c3 + 0" "5"]
    by (simp add: c3_def c9_def fsub_def round_half_even_def power_int_minus)
  define c10 :: real where "c10 = 1"
  have f_7: "fsub (Finite 1) (Finite 0) = Finite c10"
    using to_float_eval [of "1 - 0" "0"]
    by (simp add: c10_def fsub_def round_half_even_def power_int_minus)
  define c11 :: real where "c11 = 134826985114673693079697889309176855021348273420672992955072560868299506854125722349531357991805652015840085409903545018244092326610812466869635572979605593283325920068649113957226664700934570589589812214063754326628613011756847161105434832905620427872512883013439723679960434453859787228626517247218168102912"
  have f_8: "fmul (Finite c10) (Finite c7) = Finite c11"
    using to_float_eval [of "c10 * c7" "1023"]
    by (simp add: c10_def c7_def c11_def fsub_def round_half_even_def power_int_minus)
  have f_9: "fadd (Finite c11) (Finite c1) = PInf"
    using to_float_eval [of "c11 + c1" "1024"]
    by (simp add: c11_def c1_def fsub_def round_half_even_def power_int_minus)
  have f_10: "fadd PInf (Finite c2) = PInf"
    by (simp add: c2_def fsub_def to_float_0)
  have f_11: "fdiv PInf PInf = Inr NaN"
    by (simp add:  fsub_def to_float_0)
  define c12 :: real where "c12 = - (10)"
  have f_12: "fsub (Finite c6) (Finite c9) = Finite c12"
    using to_float_eval [of "c6 - c9" "3"]
    by (simp add: c6_def c9_def c12_def fsub_def round_half_even_def power_int_minus)
  have f_13: "fmul NaN (Finite c12) = NaN"
    by (simp add: c12_def fsub_def to_float_0)
  have f_14: "fadd (Finite c9) NaN = NaN"
    by (simp add: c9_def fsub_def to_float_0)
  have f_15: "fsub (Finite 1) NaN = NaN"
    by (simp add:  fsub_def to_float_0)
  have f_16: "fmul NaN PInf = NaN"
    by (simp add:  fsub_def to_float_0)
  have fl_c1: "is_float c1"
    using to_float_eval [of c1 "1023"]
    by (simp add: is_float_def c1_def round_half_even_def power_int_minus)
  have pos_c1: "0 \<le> c1"
    by (simp add: c1_def)
  have fl_c2: "is_float c2"
    using to_float_eval [of c2 "1023"]
    by (simp add: is_float_def c2_def round_half_even_def power_int_minus)
  have pos_c2: "0 < c2"
    by (simp add: c2_def)
  have fl_c4: "is_float c4"
    by (simp add: c4_def is_float_0)
  have pos_c4: "0 \<le> c4"
    by (simp add: c4_def)
  have run: "kalman_run_float (Finite c1) (Finite c2) (Finite c3) (Finite c4) [Finite c5, Finite c6] =
      Inr \<lparr>x_est = NaN, estimates = [Finite c9, NaN],
          predictions = [Finite c3, Finite c9],
          p_est = NaN,
          variances = [Finite c11, NaN],
          kalman_gains = [Finite 0, NaN]\<rparr>"
    by (simp del: fadd.simps fmul.simps fdiv.simps
        add: kalman_run_float_def kalman_init_def kalman_body_float_def Let_def f_1 f_2 f_3 f_4 f_5 f_6 f_7 f_8 f_9 f_10 f_11 f_12 f_13 f_14 f_15 f_16)
  show ?thesis
    using fl_c1 pos_c1 fl_c2 pos_c2 fl_c4 pos_c4 run
    unfolding c1_def c2_def c3_def c4_def c5_def c6_def c7_def c8_def c9_def c10_def c11_def c12_def
    by blast
qed

text \<open>
  C4, amended.  With floats q >= 0, r > 0 and p0 >= 0 the Kalman loop never raises and
  the gain recorded at every step is the float quotient p_pred / (p_pred + r).  With
  process noise (Ch-5) it is a finite K with 0 <= K <= 1 at every step whose predicted
  variance p_est + q is finite, and NaN at a step whose predicted variance has
  overflowed or is NaN.  Without process noise (Ch-4) every gain is a finite K with
  0 <= K <= 1.
\<close>

theorem kalman_gain_bounds:
  assumes "is_float q" "0 \<le> q" "is_float r" "0 < r" "is_float p0" "0 \<le> p0"
  shows "(\<exists>s. kalman_run_float (Finite q) (Finite r) x0 (Finite p0) zs = Inr s
            \<and> length (kalman_gains s) = length zs
            \<and> (\<forall>i<length zs.
                  fdiv (fadd ((Finite p0 # variances s) ! i) (Finite q))
                    (fadd (fadd ((Finite p0 # variances s) ! i) (Finite q)) (Finite r)) =
                    Inr (kalman_gains s ! i)
                  \<and> (case fadd ((Finite p0 # variances s) ! i) (Finite q) of
                        Finite p_pred \<Rightarrow>
                          (\<exists>K. kalman_gains s ! i = Finite K \<and> 0 \<le> K \<and> K \<le> 1)
                      | _ \<Rightarrow> kalman_gains s ! i = NaN)))
       \<and> (\<exists>s. kalman_static_run_float (Finite r) x0 (Finite p0) zs = Inr s
            \<and> length (kalman_gains s) = length zs
            \<and> (\<forall>i<length zs.
                  fdiv ((Finite p0 # variances s) ! i)
                    (fadd ((Finite p0 # variances s) ! i) (Finite r)) = Inr (kalman_gains s ! i)
                  \<and> (\<exists>K. kalman_gains s ! i = Finite K \<and> 0 \<le> K \<and> K \<le> 1)))"
proof
  have inv: "(\<exists>p. p_est (kalman_init x0 (Finite p0)) = Finite p \<and> 0 \<le> p \<and> is_float p)
      \<or> p_est (kalman_init x0 (Finite p0)) = NaN"
    using assms(5,6) by (simp add: kalman_init_def)
  from kalman_float_loop [OF assms(3,4,2) inv, of 1 zs] obtain s vs ks where
    run: "kalman_run_float (Finite q) (Finite r) x0 (Finite p0) zs = Inr s"
    and vs: "variances s = vs"
    and ks: "kalman_gains s = ks" "length ks = length zs"
    and all: "\<And>i. i < length zs \<Longrightarrow>
                 fdiv (fadd ((Finite p0 # vs) ! i) (Finite q))
                   (fadd (fadd ((Finite p0 # vs) ! i) (Finite q)) (Finite r)) = Inr (ks ! i)
                 \<and> (case fadd ((Finite p0 # vs) ! i) (Finite q) of
                       Finite p_pred \<Rightarrow>
                         0 \<le> p_pred
                         \<and> (\<exists>k p. ks ! i = Finite k \<and> 0 \<le> k \<and> k \<le> 1
                                \<and> vs ! i = Finite p \<and> 0 \<le> p \<and> p \<le> p_pred)
                     | _ \<Rightarrow> ks ! i = NaN \<and> vs ! i = NaN)"
    by (auto simp: kalman_run_float_def kalman_init_def)
  have "fdiv (fadd ((Finite p0 # variances s) ! i) (Finite q))
                    (fadd (fadd ((Finite p0 # variances s) ! i) (Finite q)) (Finite r)) =
                    Inr (kalman_gains s ! i)
                  \<and> (case fadd ((Finite p0 # variances s) ! i) (Finite q) of
                        Finite p_pred \<Rightarrow>
                          (\<exists>K. kalman_gains s ! i = Finite K \<and> 0 \<le> K \<and> K \<le> 1)
                      | _ \<Rightarrow> kalman_gains s ! i = NaN)" if "i < length zs" for i
    using all [OF that] by (auto simp: vs ks(1) split: pyfloat.splits)
  with run ks show "\<exists>s. kalman_run_float (Finite q) (Finite r) x0 (Finite p0) zs = Inr s
            \<and> length (kalman_gains s) = length zs
            \<and> (\<forall>i<length zs.
                  fdiv (fadd ((Finite p0 # variances s) ! i) (Finite q))
                    (fadd (fadd ((Finite p0 # variances s) ! i) (Finite q)) (Finite r)) =
                    Inr (kalman_gains s ! i)
                  \<and> (case fadd ((Finite p0 # variances s) ! i) (Finite q) of
                        Finite p_pred \<Rightarrow>
                          (\<exists>K. kalman_gains s ! i = Finite K \<and> 0 \<le> K \<and> K \<le> 1)
                      | _ \<Rightarrow> kalman_gains s ! i = NaN))"
    by auto
next
  have inv: "\<exists>p. p_est (kalman_init x0 (Finite p0)) = Finite p \<and> 0 \<le> p \<and> is_float p"
    using assms(5,6) by (simp add: kalman_init_def)
  from kalman_static_float_loop [OF assms(3,4) inv, of 1 zs] obtain s vs ks where
    run: "kalman_static_run_float (Finite r) x0 (Finite p0) zs = Inr s"
    and vs: "variances s = vs"
    and ks: "kalman_gains s = ks" "length ks = length zs"
    and all: "\<And>i. i < length zs \<Longrightarrow>
                 \<exists>p_pred k p.
                   (Finite p0 # vs) ! i = Finite p_pred \<and> ks ! i = Finite k \<and> vs ! i = Finite p
                   \<and> fdiv (Finite p_pred) (fadd (Finite p_pred) (Finite r)) = Inr (Finite k)
                   \<and> 0 \<le> p_pred \<and> 0 \<le> k \<and> k \<le> 1 \<and> 0 \<le> p \<and> p \<le> p_pred"
    by (auto simp: kalman_static_run_float_def kalman_init_def)
  have "fdiv ((Finite p0 # variances s) ! i)
                    (fadd ((Finite p0 # variances s) ! i) (Finite r)) = Inr (kalman_gains s ! i)
                  \<and> (\<exists>K. kalman_gains s ! i = Finite K \<and> 0 \<le> K \<and> K \<le> 1)"
    if "i < length zs" for i
    using all [OF that] vs ks(1) by auto
  with run ks show "\<exists>s. kalman_static_run_float (Finite r) x0 (Finite p0) zs = Inr s
            \<and> length (kalman_gains s) = length zs
            \<and> (\<forall>i<length zs.
                  fdiv ((Finite p0 # variances s) ! i)
                    (fadd ((Finite p0 # variances s) ! i) (Finite r)) = Inr (kalman_gains s ! i)
                  \<and> (\<exists>K. kalman_gains s ! i = Finite K \<and> 0 \<le> K \<and> K \<le> 1))"
    by auto
qed

text \<open>
  An instance: q = 1/8, r = 2^-7, initial estimate 10 with variance 10000, one
  measurement.
\<close>

theorem kalman_gain_bounds_witness:
  "is_float (1 / 8) \<and> (0::real) \<le> 1 / 8
   \<and> is_float (1 / 128) \<and> (0::real) < 1 / 128
   \<and> is_float 10000 \<and> (0::real) \<le> 10000
   \<and> (\<exists>s. kalman_run_float (Finite (1 / 8)) (Finite (1 / 128)) (Finite 10) (Finite 10000)
              [Finite 50] = Inr s
          \<and> (\<exists>K. kalman_gains s ! 0 = Finite K \<and> 0 \<le> K \<and> K \<le> 1))
   \<and> (\<exists>s. kalman_static_run_float (Finite (1 / 128)) (Finite 10) (Finite 10000)
              [Finite 50] = Inr s
          \<and> (\<exists>K. kalman_gains s ! 0 = Finite K \<and> 0 \<le> K \<and> K \<le> 1))"
proof -
  define q :: real where "q = 1 / 8"
  define r :: real where "r = 1 / 128"
  define p0 :: real where "p0 = 10000"
  have q: "is_float q" "0 \<le> q"
    using to_float_eval [of q "- 3"]
    by (simp_all add: is_float_def q_def round_half_even_def power_int_minus)
  have r: "is_float r" "0 < r"
    using to_float_eval [of r "- 7"]
    by (simp_all add: is_float_def r_def round_half_even_def power_int_minus)
  have p0: "is_float p0" "0 \<le> p0"
    using to_float_eval [of p0 13]
    by (simp_all add: is_float_def p0_def round_half_even_def power_int_minus)
  have sum: "fadd (Finite p0) (Finite q) = Finite (p0 + q)"
    using to_float_eval [of "p0 + q" 13]
    by (simp add: p0_def q_def round_half_even_def power_int_minus)
  from kalman_gain_bounds [OF q r p0, of "Finite 10" "[Finite 50]"] obtain s t where
    s: "kalman_run_float (Finite q) (Finite r) (Finite 10) (Finite p0) [Finite 50] = Inr s"
    and sk: "\<forall>i<length [Finite 50 :: pyfloat].
               fdiv (fadd ((Finite p0 # variances s) ! i) (Finite q))
                 (fadd (fadd ((Finite p0 # variances s) ! i) (Finite q)) (Finite r)) =
                 Inr (kalman_gains s ! i)
               \<and> (case fadd ((Finite p0 # variances s) ! i) (Finite q) of
                     Finite p_pred \<Rightarrow>
                       (\<exists>K. kalman_gains s ! i = Finite K \<and> 0 \<le> K \<and> K \<le> 1)
                   | _ \<Rightarrow> kalman_gains s ! i = NaN)"
    and t: "kalman_static_run_float (Finite r) (Finite 10) (Finite p0) [Finite 50] = Inr t"
    and tk: "\<forall>i<length [Finite 50 :: pyfloat].
               fdiv ((Finite p0 # variances t) ! i)
                 (fadd ((Finite p0 # variances t) ! i) (Finite r)) = Inr (kalman_gains t ! i)
               \<and> (\<exists>K. kalman_gains t ! i = Finite K \<and> 0 \<le> K \<and> K \<le> 1)"
    by blast
  from sk have "case fadd (Finite p0) (Finite q) of
                  Finite p_pred \<Rightarrow>
                    (\<exists>K. kalman_gains s ! 0 = Finite K \<and> 0 \<le> K \<and> K \<le> 1)
                | _ \<Rightarrow> kalman_gains s ! 0 = NaN"
    by (drule_tac x = 0 in spec) (simp del: fadd.simps fdiv.simps)
  then have a: "\<exists>K. kalman_gains s ! 0 = Finite K \<and> 0 \<le> K \<and> K \<le> 1"
    by (simp del: fadd.simps add: sum)
  from tk have b: "\<exists>K. kalman_gains t ! 0 = Finite K \<and> 0 \<le> K \<and> K \<le> 1"
    by (drule_tac x = 0 in spec) (simp del: fadd.simps fdiv.simps)
  show ?thesis
    using q r p0 s t a b unfolding q_def r_def p0_def by blast
qed




end
